theory Spec2Isabelle
  imports Main "HOL-Library.Sublist"
begin

section \<open>Robot config service: a shallow embedding of robot_config_service.py\<close>

text \<open>
  The service runs once per boot: it reads a cached event id from disk, resolves the
  address of the control-plane cluster, asks the cluster for the current event id and,
  when the id is new, fetches a skupper token and runs an ansible playbook.

  Everything outside the process (HTTP servers, the two external commands, faults of the
  file system) is an oracle in the record \<open>env\<close>; everything the process changes (the two
  files, the history of external calls) is in the record \<open>world\<close>, passed explicitly.
  Oracles are indexed by \<open>clock\<close>, the number of oracle calls made so far, so a server may
  answer the same request differently over time.  Python strings are \<open>string\<close>s whose
  characters are the code points below 256.
\<close>

subsection \<open>Python string operations\<close>

text \<open>\<open>str.isspace\<close> on the code points below 256: TAB..CR, FS..US, space, NEL, NBSP.\<close>

definition isspace :: "char \<Rightarrow> bool" where
  "isspace c \<longleftrightarrow>
     (let n = (of_char c :: nat)
      in (9 \<le> n \<and> n \<le> 13) \<or> (28 \<le> n \<and> n \<le> 32) \<or> n = 133 \<or> n = 160)"

text \<open>\<open>s.strip()\<close>, \<open>s.rstrip('/')\<close> and \<open>s.strip('/')\<close>.\<close>

definition strip :: "string \<Rightarrow> string" where
  "strip s = rev (dropWhile isspace (rev (dropWhile isspace s)))"

definition rstrip_slash :: "string \<Rightarrow> string" where
  "rstrip_slash s = rev (dropWhile (\<lambda>c. c = CHR ''/'') (rev s))"

definition strip_slash :: "string \<Rightarrow> string" where
  "strip_slash s = rstrip_slash (dropWhile (\<lambda>c. c = CHR ''/'') s)"

text \<open>\<open>s.split('?')[0]\<close>: the part before the first question mark.\<close>

definition before_query :: "string \<Rightarrow> string" where
  "before_query s = takeWhile (\<lambda>c. c \<noteq> CHR ''?'') s"

text \<open>\<open>str.lower\<close> on the code points below 256: A..Z and the accented capitals
  0xC0..0xDE (but not the multiplication sign 0xD7) move up by 32.\<close>

definition lower_char :: "char \<Rightarrow> char" where
  "lower_char c =
     (let n = (of_char c :: nat)
      in if (65 \<le> n \<and> n \<le> 90) \<or> (192 \<le> n \<and> n \<le> 222 \<and> n \<noteq> 215)
         then char_of (n + 32) else c)"

definition lower :: "string \<Rightarrow> string" where
  "lower s = map lower_char s"

text \<open>
  A file opened in text mode with the default \<open>newline=None\<close> is read with universal
  newlines: CR LF and a lone CR both arrive as LF.  Writing on Linux translates nothing.
\<close>

fun universal_newlines :: "string \<Rightarrow> string" where
  "universal_newlines [] = []"
| "universal_newlines [c] = [if c = CHR 0x0D then CHR 0x0A else c]"
| "universal_newlines (c # d # ds) =
     (if c = CHR 0x0D \<and> d = CHR 0x0A then CHR 0x0A # universal_newlines ds
      else if c = CHR 0x0D then CHR 0x0A # universal_newlines (d # ds)
      else c # universal_newlines (d # ds))"

subsection \<open>Data model\<close>

text \<open>
  A value that came out of a JSON body.  The code looks only at whether it is a string,
  at the string, and at its truth value, so every value that is neither \<open>None\<close> nor a
  string (number, boolean, list, object) is \<open>PyOther\<close> with its truth value.
\<close>

datatype pyval = PyNone | PyStr string | PyOther bool

fun truthy :: "pyval \<Rightarrow> bool" where
  "truthy PyNone = False"
| "truthy (PyStr s) = (s \<noteq> [])"
| "truthy (PyOther b) = b"

text \<open>Python's \<open>a or b\<close>.\<close>

definition py_or :: "pyval \<Rightarrow> pyval \<Rightarrow> pyval" where
  "py_or a b = (if truthy a then a else b)"

text \<open>
  What \<open>response.json()\<close> gives: an object, with its items and with the text \<open>str(data)\<close>
  prints for it, or any other JSON value (which has no \<open>get\<close>).
\<close>

datatype json_doc = JsonDict "(string \<times> pyval) list" string | JsonOther

text \<open>\<open>data.get(key)\<close> on a dictionary.\<close>

definition dict_get :: "(string \<times> pyval) list \<Rightarrow> string \<Rightarrow> pyval" where
  "dict_get items k = (case map_of items k of None \<Rightarrow> PyNone | Some v \<Rightarrow> v)"

record response =
  status_code :: int
  resp_text :: string             \<comment> \<open>\<open>response.text\<close>\<close>
  json :: "json_doc option"      \<comment> \<open>\<open>None\<close>: \<open>response.json()\<close> raises ValueError\<close>
  location :: "string option"    \<comment> \<open>the Location header\<close>
  resp_url :: string             \<comment> \<open>\<open>response.url\<close>\<close>

datatype http_result = Response response | RequestException

text \<open>\<open>raise_for_status\<close> raises HTTPError (a RequestException) on 4xx and 5xx;
  \<open>is_redirect\<close> needs a Location header and one of the redirect codes.\<close>

definition raises_for_status :: "response \<Rightarrow> bool" where
  "raises_for_status r \<longleftrightarrow> 400 \<le> status_code r \<and> status_code r < 600"

definition is_redirect :: "response \<Rightarrow> bool" where
  "is_redirect r \<longleftrightarrow>
     location r \<noteq> None \<and> status_code r \<in> {301, 302, 303, 307, 308}"

text \<open>The outcome of \<open>subprocess.run\<close>: exit status with stdout and stderr, or an exception.\<close>

datatype proc_result =
    Exited int string string
  | TimedOut        \<comment> \<open>subprocess.TimeoutExpired\<close>
  | NotFound        \<comment> \<open>FileNotFoundError: no such binary\<close>
  | ProcFailed      \<comment> \<open>any other exception\<close>

text \<open>Exceptions that the code raises or lets through.\<close>

datatype exn =
    AttributeError | NameError | ValueError | TypeError | OSError
  | TimeoutExpired | FileNotFoundError

text \<open>The messages posted to \<open>/control/initStatus\<close>, in the order of the source.\<close>

datatype status =
    Querying_token | Token_retrieved | EID_unknown | Starting_configure
  | Failed_configure | Configured | EID_known | Okay

text \<open>The history of external calls: what was called, and for the two commands the outcome.\<close>

datatype event =
    Sleep int
  | Get string
  | Post string status
  | Skupper proc_result
  | Playbook string proc_result

text \<open>The cached event id file: missing, holding text, or holding bytes that do not decode
  (reading it raises).\<close>

datatype cache_file = Missing | Text string | Undecodable

record world =
  clock :: nat
  event_id_file :: cache_file
  token_file :: "string option"
  trace :: "event list"

text \<open>What \<open>urlparse\<close> returns, as far as the code reads it.\<close>

record parsed_url =
  scheme :: string
  netloc :: string
  path :: string

text \<open>How writing the cache file fails: creating the directory or opening the file raises
  (the file stays as it was), or writing raises after the file was opened and truncated.\<close>

datatype write_fault = NoFault | OpenFails | WriteFails

record env =
  REDIRECT_URL :: string
  REDIRECT_URL_IS_CLUSTER :: bool
  RCS_GIT_REPO :: string
  RCS_GIT_BRANCH :: string
  REDIRECT_RETRIES :: int
  REDIRECT_RETRY_DELAY :: int
  SERVICE_STARTUP_DELAY :: int
  PLAYBOOK_RETRIES :: int            \<comment> \<open>the value of the environment variable, see \<open>playbook_retries\<close>\<close>
  PLAYBOOK_RETRY_DELAY :: int
  robot_name :: string
  http_get :: "nat \<Rightarrow> string \<Rightarrow> http_result"
  ansible_playbook :: "nat \<Rightarrow> proc_result"
  skupper_status :: "nat \<Rightarrow> proc_result"
  urlparse :: "string \<Rightarrow> parsed_url option"   \<comment> \<open>\<open>None\<close>: ValueError\<close>
  cache_fault :: write_fault
  token_write_fails :: bool
  unlink_fails :: bool

text \<open>The configured count is \<open>max(1, int(...))\<close>.\<close>

definition playbook_retries :: "env \<Rightarrow> nat" where
  "playbook_retries e = nat (max 1 (PLAYBOOK_RETRIES e))"

text \<open>\<open>time.sleep\<close>, an HTTP GET and a status POST, as steps on the world.\<close>

definition sleep :: "int \<Rightarrow> world \<Rightarrow> world" where
  "sleep n w = w\<lparr>trace := trace w @ [Sleep n]\<rparr>"

definition requests_get :: "env \<Rightarrow> string \<Rightarrow> world \<Rightarrow> http_result \<times> world" where
  "requests_get e url w =
     (http_get e (clock w) url, w\<lparr>clock := Suc (clock w), trace := trace w @ [Get url]\<rparr>)"

subsection \<open>StateStore\<close>

definition get_cached_event_id :: "world \<Rightarrow> string option" where
  "get_cached_event_id w =
     (case event_id_file w of
        Missing \<Rightarrow> None
      | Undecodable \<Rightarrow> None
      | Text content \<Rightarrow>
          (let event_id = strip (universal_newlines content)
           in if event_id \<noteq> [] then Some event_id else None))"

text \<open>\<open>f.write\<close> of a value that is not a string raises TypeError, after \<open>open\<close> has
  truncated the file.\<close>

definition cache_event_id :: "env \<Rightarrow> pyval \<Rightarrow> world \<Rightarrow> bool \<times> world" where
  "cache_event_id e event_id w =
     (case cache_fault e of
        OpenFails \<Rightarrow> (False, w)
      | WriteFails \<Rightarrow> (False, w\<lparr>event_id_file := Text []\<rparr>)
      | NoFault \<Rightarrow>
          (case event_id of
             PyStr s \<Rightarrow> (True, w\<lparr>event_id_file := Text s\<rparr>)
           | _ \<Rightarrow> (False, w\<lparr>event_id_file := Text []\<rparr>)))"

subsection \<open>TunnelProbe\<close>

definition check_skupper_tunnel :: "env \<Rightarrow> world \<Rightarrow> bool \<times> world" where
  "check_skupper_tunnel e w =
     (let result = skupper_status e (clock w);
          w1 = w\<lparr>clock := Suc (clock w), trace := trace w @ [Skupper result]\<rparr>
      in case result of
           Exited returncode out err \<Rightarrow>
             (let stdout = lower out
              in if returncode \<noteq> 0 then (False, w1)
                 else (sublist ''connected to'' stdout \<and> sublist ''other site'' stdout, w1))
         | TimedOut \<Rightarrow> (False, w1)
         | NotFound \<Rightarrow> (False, w1)
         | ProcFailed \<Rightarrow> (False, w1))"

text \<open>Removing the token file can fail with OSError, which is logged.\<close>

definition remove_token_file_after_tunnel_up :: "env \<Rightarrow> world \<Rightarrow> world" where
  "remove_token_file_after_tunnel_up e w =
     (case token_file w of
        None \<Rightarrow> w
      | Some _ \<Rightarrow>
          (case check_skupper_tunnel e (sleep 15 w) of
             (True, w1) \<Rightarrow> if unlink_fails e then w1 else w1\<lparr>token_file := None\<rparr>
           | (False, w1) \<Rightarrow> w1))"

subsection \<open>EndpointResolver\<close>

text \<open>The truth value of an \<open>Optional[str]\<close>: neither \<open>None\<close> nor the empty string.\<close>

definition present :: "string option \<Rightarrow> bool" where
  "present x = (case x of None \<Rightarrow> False | Some s \<Rightarrow> s \<noteq> [])"

text \<open>Any exception inside is caught and gives \<open>None\<close>.\<close>

definition github_raw_base_url :: "env \<Rightarrow> string option" where
  "github_raw_base_url e =
     (if RCS_GIT_REPO e = [] then None
      else case urlparse e (strip (RCS_GIT_REPO e)) of
             None \<Rightarrow> None
           | Some parsed \<Rightarrow>
               if netloc parsed \<noteq> ''github.com'' \<or> path parsed = [] then None
               else (let p = strip_slash (path parsed);
                         p = (if suffix ''.git'' p then take (length p - 4) p else p)
                     in if CHR ''/'' \<notin> set p then None
                        else Some (''https://raw.githubusercontent.com/'' @ p @ ''/''
                                   @ RCS_GIT_BRANCH e)))"

text \<open>The loop \<open>for name in (self.robot_name, "catch-all")\<close>.\<close>

fun fetch_names :: "env \<Rightarrow> string \<Rightarrow> string list \<Rightarrow> world \<Rightarrow> string option \<times> world" where
  "fetch_names e raw_base [] w = (None, w)"
| "fetch_names e raw_base (name # names) w =
     (let url = rstrip_slash raw_base @ ''/'' @ name
      in case requests_get e url w of
           (Response r, w1) \<Rightarrow>
             if status_code r = 200 \<and> strip (resp_text r) \<noteq> []
             then (Some (strip (resp_text r)), w1)
             else fetch_names e raw_base names w1
         | (RequestException, w1) \<Rightarrow> fetch_names e raw_base names w1)"

definition fetch_cluster_url_from_github_raw ::
  "env \<Rightarrow> string \<Rightarrow> world \<Rightarrow> string option \<times> world" where
  "fetch_cluster_url_from_github_raw e raw_base w =
     fetch_names e raw_base [robot_name e, ''catch-all''] w"

text \<open>
  The loop \<open>for attempt in range(REDIRECT_RETRIES)\<close> of the GitHub strategy, counting the
  attempts that remain: \<open>attempt < REDIRECT_RETRIES - 1\<close> says that one more remains.
\<close>

fun github_attempts :: "env \<Rightarrow> string \<Rightarrow> nat \<Rightarrow> world \<Rightarrow> string option \<times> world" where
  "github_attempts e raw_base 0 w = (None, w)"
| "github_attempts e raw_base (Suc n) w =
     (let (cluster_url, w1) = fetch_cluster_url_from_github_raw e raw_base w
      in if present cluster_url then (cluster_url, w1)
         else github_attempts e raw_base n
                (if 0 < n \<and> 0 < REDIRECT_RETRY_DELAY e
                 then sleep (REDIRECT_RETRY_DELAY e) w1 else w1))"

text \<open>How one redirect chase ends.\<close>

datatype chase_result =
    Resolved string
  | Redirect_loop       \<comment> \<open>"Redirect loop detected": \<open>return None\<close>\<close>
  | Too_many            \<comment> \<open>"Too many redirects": \<open>return None\<close>\<close>
  | Request_failed      \<comment> \<open>a RequestException, caught by the attempt loop\<close>
  | Raised exn          \<comment> \<open>any other exception, not caught\<close>

text \<open>The loop \<open>for _ in range(10)\<close>, counting the hops that remain.\<close>

fun follow_redirects ::
  "env \<Rightarrow> nat \<Rightarrow> string \<Rightarrow> string set \<Rightarrow> world \<Rightarrow> chase_result \<times> world" where
  "follow_redirects e 0 url seen w = (Too_many, w)"
| "follow_redirects e (Suc n) url seen w =
     (if url \<in> seen then (Redirect_loop, w)
      else case requests_get e url w of
             (RequestException, w1) \<Rightarrow> (Request_failed, w1)
           | (Response r, w1) \<Rightarrow>
               if raises_for_status r then (Request_failed, w1)
               else if is_redirect r \<and> present (location r) then
                 (let next_location = the (location r)
                  in if prefix ''/'' next_location then
                       (case urlparse e (resp_url r) of
                          None \<Rightarrow> (Raised ValueError, w1)
                        | Some parsed \<Rightarrow>
                            follow_redirects e n
                              (scheme parsed @ ''://'' @ netloc parsed @ next_location)
                              (insert url seen) w1)
                     else follow_redirects e n next_location (insert url seen) w1)
               else (Resolved (rstrip_slash (resp_url r)), w1))"

text \<open>The loop \<open>for attempt in range(REDIRECT_RETRIES)\<close> of the redirect strategy.\<close>

fun redirect_attempts :: "env \<Rightarrow> nat \<Rightarrow> world \<Rightarrow> (exn + string option) \<times> world" where
  "redirect_attempts e 0 w = (Inr None, w)"
| "redirect_attempts e (Suc n) w =
     (case follow_redirects e 10 (REDIRECT_URL e) {} w of
        (Resolved cluster_url, w1) \<Rightarrow> (Inr (Some cluster_url), w1)
      | (Redirect_loop, w1) \<Rightarrow> (Inr None, w1)
      | (Too_many, w1) \<Rightarrow> (Inr None, w1)
      | (Raised x, w1) \<Rightarrow> (Inl x, w1)
      | (Request_failed, w1) \<Rightarrow>
          redirect_attempts e n
            (if 0 < n \<and> 0 < REDIRECT_RETRY_DELAY e
             then sleep (REDIRECT_RETRY_DELAY e) w1 else w1))"

definition get_cluster_url :: "env \<Rightarrow> world \<Rightarrow> (exn + string option) \<times> world" where
  "get_cluster_url e w =
     (if REDIRECT_URL_IS_CLUSTER e \<and> REDIRECT_URL e \<noteq> []
      then (Inr (Some (rstrip_slash (before_query (REDIRECT_URL e)))), w)
      else if present (github_raw_base_url e)
      then (case github_attempts e (the (github_raw_base_url e))
                   (nat (REDIRECT_RETRIES e)) w of
              (cluster_url, w1) \<Rightarrow> (Inr cluster_url, w1))
      else if REDIRECT_URL e = [] then (Inr None, w)
      else redirect_attempts e (nat (REDIRECT_RETRIES e)) w)"

subsection \<open>ControlPlaneClient\<close>

definition control_base :: "string \<Rightarrow> string" where
  "control_base cluster_url = rstrip_slash (before_query cluster_url) @ ''/control''"

text \<open>The body of a 200 response, read as an event id or as a token: a JSON object is
  asked for two keys and printed when both are missing or false, any other JSON value
  has no \<open>get\<close>, and a body that is not JSON is taken as text.\<close>

definition body_value :: "string \<Rightarrow> string \<Rightarrow> response \<Rightarrow> exn + pyval" where
  "body_value key1 key2 r =
     (case json r of
        None \<Rightarrow> Inr (PyStr (strip (resp_text r)))
      | Some JsonOther \<Rightarrow> Inl AttributeError
      | Some (JsonDict data printed) \<Rightarrow>
          Inr (py_or (py_or (dict_get data key1) (dict_get data key2)) (PyStr printed)))"

definition query_event_id :: "env \<Rightarrow> string \<Rightarrow> world \<Rightarrow> (exn + pyval) \<times> world" where
  "query_event_id e cluster_url w =
     (let base = rstrip_slash (before_query cluster_url);
          event_id_endpoint = base @ ''/control/eventId''
      in case requests_get e event_id_endpoint w of
           (RequestException, w1) \<Rightarrow> (Inr PyNone, w1)
         | (Response r, w1) \<Rightarrow>
             if raises_for_status r then (Inr PyNone, w1)
             else (body_value ''event_id'' ''eventId'' r, w1))"

text \<open>The POST is best effort: its answer is never read.\<close>

definition report_init_status :: "string \<Rightarrow> status \<Rightarrow> world \<Rightarrow> world" where
  "report_init_status cluster_url st w =
     w\<lparr>trace := trace w @ [Post (control_base cluster_url @ ''/initStatus'') st]\<rparr>"

text \<open>The loop \<open>while True\<close>: it may never return, which is the value \<open>None\<close>.\<close>

partial_function (option) token_loop ::
  "env \<Rightarrow> string \<Rightarrow> string \<Rightarrow> world \<Rightarrow> ((exn + pyval) \<times> world) option" where
  "token_loop e cluster_url token_endpoint w =
     (case requests_get e token_endpoint w of
        (Response r, w1) \<Rightarrow>
          if status_code r = 200 then
            (case body_value ''token'' ''skupper_token'' r of
               Inl x \<Rightarrow> Some (Inl x, w1)
             | Inr token \<Rightarrow>
                 Some (Inr token, report_init_status cluster_url Token_retrieved w1))
          else token_loop e cluster_url token_endpoint (sleep 5 w1)
      | (RequestException, w1) \<Rightarrow>
          token_loop e cluster_url token_endpoint (sleep 5 w1))"

definition query_skupper_token ::
  "env \<Rightarrow> string \<Rightarrow> world \<Rightarrow> ((exn + pyval) \<times> world) option" where
  "query_skupper_token e cluster_url w =
     token_loop e cluster_url (control_base cluster_url @ ''/getToken'')
       (report_init_status cluster_url Querying_token w)"

subsection \<open>Provisioner\<close>

text \<open>One run of the playbook.  \<open>write_text\<close> of a token that is not a string raises
  TypeError before the file is touched.  The audit log is not part of the state.\<close>

definition run_ansible_playbook_once ::
  "env \<Rightarrow> pyval \<Rightarrow> world \<Rightarrow> (exn + bool) \<times> world" where
  "run_ansible_playbook_once e token w =
     (case token of
        PyStr t \<Rightarrow>
          if token_write_fails e then (Inl OSError, w)
          else (let w1 = w\<lparr>token_file := Some t\<rparr>;
                    result = ansible_playbook e (clock w1);
                    w2 = w1\<lparr>clock := Suc (clock w1),
                            trace := trace w1 @ [Playbook t result]\<rparr>
                in case result of
                     Exited returncode out err \<Rightarrow> (Inr (returncode = 0), w2)
                   | TimedOut \<Rightarrow> (Inl TimeoutExpired, w2)
                   | NotFound \<Rightarrow> (Inl FileNotFoundError, w2)
                   | ProcFailed \<Rightarrow> (Inl OSError, w2))
      | _ \<Rightarrow> (Inl TypeError, w))"

text \<open>The loop \<open>for attempt in range(1, PLAYBOOK_RETRIES + 1)\<close>, with the number of the
  attempt and the attempts that remain.  \<open>time.sleep\<close> of a negative delay raises
  ValueError.\<close>

fun playbook_attempts ::
  "env \<Rightarrow> pyval \<Rightarrow> nat \<Rightarrow> nat \<Rightarrow> world \<Rightarrow> (exn + bool) \<times> world" where
  "playbook_attempts e token attempt 0 w = (Inr False, w)"
| "playbook_attempts e token attempt (Suc n) w =
     (if 1 < attempt \<and> PLAYBOOK_RETRY_DELAY e < 0 then (Inl ValueError, w)
      else case run_ansible_playbook_once e token
                  (if 1 < attempt then sleep (PLAYBOOK_RETRY_DELAY e) w else w) of
             (Inl x, w1) \<Rightarrow> (Inl x, w1)
           | (Inr ok, w1) \<Rightarrow>
               if ok then (Inr True, w1)
               else playbook_attempts e token (Suc attempt) n w1)"

text \<open>
  The loop runs inside one \<open>try\<close>, so an exception of any attempt ends the loop.  Each of
  the three handlers first evaluates \<open>cluster_url\<close>, a name that is neither a local of
  this method nor a global: the handler itself raises NameError.
\<close>

definition run_ansible_playbook :: "env \<Rightarrow> pyval \<Rightarrow> world \<Rightarrow> (exn + bool) \<times> world" where
  "run_ansible_playbook e token w =
     (case playbook_attempts e token 1 (playbook_retries e) w of
        (Inl x, w1) \<Rightarrow> (Inl NameError, w1)
      | (Inr ok, w1) \<Rightarrow> (Inr ok, w1))"

subsection \<open>Orchestrator\<close>

text \<open>
  The two branches of \<open>process_event\<close> that configure the tunnel (no cached id, and a new
  id) run the same statements and differ only in the status posted after the playbook
  ("configured" or "Okay"); \<open>configure\<close> is that common sequence.
\<close>

definition configure ::
  "env \<Rightarrow> string \<Rightarrow> pyval \<Rightarrow> status \<Rightarrow> world \<Rightarrow> ((exn + bool) \<times> world) option" where
  "configure e cluster_url current_event_id done_status w =
     (case query_skupper_token e cluster_url w of
        None \<Rightarrow> None
      | Some (Inl x, w1) \<Rightarrow> Some (Inl x, w1)
      | Some (Inr token, w1) \<Rightarrow>
          if \<not> truthy token then Some (Inr False, w1)
          else (case run_ansible_playbook e token
                       (report_init_status cluster_url Starting_configure w1) of
                  (Inl x, w2) \<Rightarrow> Some (Inl x, w2)
                | (Inr ok, w2) \<Rightarrow>
                    if \<not> ok
                    then Some (Inr False, report_init_status cluster_url Failed_configure w2)
                    else (case cache_event_id e current_event_id
                                 (report_init_status cluster_url done_status w2) of
                            (cached, w3) \<Rightarrow>
                              if cached
                              then Some (Inr True, remove_token_file_after_tunnel_up e w3)
                              else Some (Inr False, w3))))"

definition process_event :: "env \<Rightarrow> world \<Rightarrow> ((exn + bool) \<times> world) option" where
  "process_event e w =
     (let cached_event_id = get_cached_event_id w
      in case get_cluster_url e w of
           (Inl x, w1) \<Rightarrow> Some (Inl x, w1)
         | (Inr cluster_url, w1) \<Rightarrow>
             if \<not> present cluster_url then Some (Inr False, w1)
             else (case query_event_id e (the cluster_url) w1 of
                     (Inl x, w2) \<Rightarrow> Some (Inl x, w2)
                   | (Inr current_event_id, w2) \<Rightarrow>
                       if \<not> truthy current_event_id then Some (Inr False, w2)
                       else if \<not> present cached_event_id
                       then configure e (the cluster_url) current_event_id Configured
                              (report_init_status (the cluster_url) EID_unknown w2)
                       else if PyStr (the cached_event_id) = current_event_id
                       then Some (Inr True,
                                  report_init_status (the cluster_url) EID_known w2)
                       else configure e (the cluster_url) current_event_id Okay w2))"



declare token_loop.simps [code]

subsection \<open>Vocabulary of the properties\<close>

text \<open>What a run added to the history, whether the playbook exited with status 0 in it,
  and whether an HTTP answer is a 200.\<close>

definition new_events :: "world \<Rightarrow> world \<Rightarrow> event list" where
  "new_events w w' = drop (length (trace w)) (trace w')"

fun playbook_ok :: "event \<Rightarrow> bool" where
  "playbook_ok (Playbook t (Exited returncode out err)) = (returncode = 0)"
| "playbook_ok _ = False"

fun is_playbook :: "event \<Rightarrow> bool" where
  "is_playbook (Playbook t result) = True"
| "is_playbook _ = False"

fun is_skupper :: "event \<Rightarrow> bool" where
  "is_skupper (Skupper result) = True"
| "is_skupper _ = False"

definition tool_succeeded :: "event list \<Rightarrow> bool" where
  "tool_succeeded es = list_ex playbook_ok es"

fun answers_200 :: "http_result \<Rightarrow> bool" where
  "answers_200 (Response r) = (status_code r = 200)"
| "answers_200 RequestException = False"



text \<open>A step is quiet when it leaves both files alone and adds to the history only
  requests, delays and status posts other than "Failed to configure robot": no run of
  the playbook and no tunnel probe.\<close>

fun calm :: "event \<Rightarrow> bool" where
  "calm (Sleep n) = True"
| "calm (Get url) = True"
| "calm (Post url st) = (st \<noteq> Failed_configure)"
| "calm (Skupper result) = False"
| "calm (Playbook t result) = False"

definition quiet :: "world \<Rightarrow> world \<Rightarrow> bool" where
  "quiet w w' \<longleftrightarrow>
     event_id_file w' = event_id_file w \<and> token_file w' = token_file w
     \<and> (\<exists>es. trace w' = trace w @ es \<and> (\<forall>ev\<in>set es. calm ev))"

text \<open>The events of the retry loop: runs of the playbook and delays.\<close>

fun provisioning :: "event \<Rightarrow> bool" where
  "provisioning (Playbook t result) = True"
| "provisioning (Sleep n) = True"
| "provisioning _ = False"

text \<open>What the tunnel probe makes of the outcome of the status command.\<close>

fun reports_up :: "proc_result \<Rightarrow> bool" where
  "reports_up (Exited returncode out err) =
     (returncode = 0 \<and> sublist ''connected to'' (lower out)
      \<and> sublist ''other site'' (lower out))"
| "reports_up _ = False"


text \<open>The event id that \<open>process_event\<close> queries in a run, when it gets that far.\<close>

definition current_event_id :: "env \<Rightarrow> world \<Rightarrow> pyval option" where
  "current_event_id e w =
     (case get_cluster_url e w of
        (Inl x, w1) \<Rightarrow> None
      | (Inr cluster_url, w1) \<Rightarrow>
          if \<not> present cluster_url then None
          else (case query_event_id e (the cluster_url) w1 of
                  (Inl x, w2) \<Rightarrow> None
                | (Inr v, w2) \<Rightarrow> Some v))"

subsection \<open>Example environments\<close>

definition ok_response :: "string \<Rightarrow> response" where
  "ok_response body =
     \<lparr>status_code = 200, resp_text = body, json = None, location = None,
      resp_url = ''http://r''\<rparr>"

definition redirect_to :: "string \<Rightarrow> string \<Rightarrow> response" where
  "redirect_to here there =
     \<lparr>status_code = 302, resp_text = [], json = None, location = Some there,
      resp_url = here\<rparr>"

text \<open>A cluster given directly, answering with event id \<open>ev-2\<close> and token \<open>tok\<close>; the
  playbook succeeds and the tunnel comes up.\<close>

definition ex_env :: env where
  "ex_env =
     \<lparr>REDIRECT_URL = ''http://r/'', REDIRECT_URL_IS_CLUSTER = True, RCS_GIT_REPO = [],
      RCS_GIT_BRANCH = ''main'', REDIRECT_RETRIES = 3, REDIRECT_RETRY_DELAY = 10,
      SERVICE_STARTUP_DELAY = 60, PLAYBOOK_RETRIES = 2, PLAYBOOK_RETRY_DELAY = 30,
      robot_name = ''robot'',
      http_get = (\<lambda>n url.
         if url = ''http://r/control/eventId'' then Response (ok_response ''ev-2'')
         else if url = ''http://r/control/getToken'' then Response (ok_response ''tok'')
         else RequestException),
      ansible_playbook = (\<lambda>n. Exited 0 [] []),
      skupper_status = (\<lambda>n. Exited 0 ''Connected to 1 other site'' []),
      urlparse = (\<lambda>s. None), cache_fault = NoFault, token_write_fails = False,
      unlink_fails = False\<rparr>"

definition ex_world :: world where
  "ex_world = \<lparr>clock = 0, event_id_file = Text ''ev-1'', token_file = None, trace = []\<rparr>"

text \<open>Two addresses that redirect to each other.\<close>

definition cyclic_env :: env where
  "cyclic_env =
     ex_env\<lparr>REDIRECT_URL_IS_CLUSTER := False, REDIRECT_URL := ''http://a'',
            http_get := (\<lambda>n url.
              if url = ''http://a'' then Response (redirect_to ''http://a'' ''http://b'')
              else if url = ''http://b'' then Response (redirect_to ''http://b'' ''http://a'')
              else RequestException)\<rparr>"

text \<open>A token endpoint that fails twice (a network error, then a 503) before it answers.\<close>

definition flaky_env :: env where
  "flaky_env =
     ex_env\<lparr>http_get := (\<lambda>n url.
              if url = ''http://r/control/eventId'' then Response (ok_response ''ev-2'')
              else if n = 0 then RequestException
              else if n = 1 then Response ((ok_response [])\<lparr>status_code := 503\<rparr>)
              else Response (ok_response ''tok''))\<rparr>"

text \<open>A network on which every request fails.\<close>

definition silent_env :: env where
  "silent_env = ex_env\<lparr>http_get := (\<lambda>n url. RequestException)\<rparr>"




text \<open>The cache file cannot be written; the cluster cannot be resolved.\<close>

definition denied_env :: env where
  "denied_env = ex_env\<lparr>cache_fault := OpenFails\<rparr>"

definition unreachable_env :: env where
  "unreachable_env = ex_env\<lparr>REDIRECT_URL_IS_CLUSTER := False\<rparr>"




text \<open>The token endpoint answers 200 with a body of one space.\<close>

definition empty_token_env :: env where
  "empty_token_env =
     ex_env\<lparr>http_get := (\<lambda>n url.
              if url = ''http://r/control/eventId'' then Response (ok_response ''ev-2'')
              else if url = ''http://r/control/getToken'' then Response (ok_response '' '')
              else RequestException)\<rparr>"

text \<open>A robot that has the current event id cached, and one with no cache file.\<close>

definition known_world :: world where
  "known_world = \<lparr>clock = 0, event_id_file = Text ''ev-2'', token_file = None, trace = []\<rparr>"


section \<open>Properties\<close>

subsection \<open>Quiet steps\<close>

lemma quiet_refl: "quiet w w"
  by (simp add: quiet_def)

lemma quiet_trans: "quiet w w1 \<Longrightarrow> quiet w1 w2 \<Longrightarrow> quiet w w2"
  by (auto simp: quiet_def)

lemma quiet_sleep: "quiet w (sleep n w)"
  by (simp add: quiet_def sleep_def)

lemma quiet_requests_get: "quiet w (snd (requests_get e url w))"
  by (simp add: quiet_def requests_get_def)

lemma quiet_report: "st \<noteq> Failed_configure \<Longrightarrow> quiet w (report_init_status url st w)"
  by (simp add: quiet_def report_init_status_def)

lemma requests_get_eq:
  "requests_get e url w = (r, w1) \<Longrightarrow> quiet w w1 \<and> clock w1 = Suc (clock w)"
  using quiet_requests_get [of w e url] by (auto simp: requests_get_def)

lemma quiet_fetch_names: "quiet w (snd (fetch_names e raw_base names w))"
proof (induction names arbitrary: w)
  case Nil
  show ?case by (simp add: quiet_refl)
next
  case (Cons name names)
  obtain r w1 where g: "requests_get e (rstrip_slash raw_base @ ''/'' @ name) w = (r, w1)"
    by (cases "requests_get e (rstrip_slash raw_base @ ''/'' @ name) w")
  then have q: "quiet w w1" by (simp add: requests_get_eq)
  have "quiet w1 (snd (fetch_names e raw_base names w1))" by (rule Cons.IH)
  with q have "quiet w (snd (fetch_names e raw_base names w1))" by (rule quiet_trans)
  with q g show ?case
    by (cases r) (simp_all add: Let_def)
qed

lemma quiet_github_attempts: "quiet w (snd (github_attempts e raw_base n w))"
proof (induction n arbitrary: w)
  case 0
  show ?case by (simp add: quiet_refl)
next
  case (Suc n)
  obtain c w1 where f: "fetch_cluster_url_from_github_raw e raw_base w = (c, w1)"
    by (cases "fetch_cluster_url_from_github_raw e raw_base w")
  then have q: "quiet w w1"
    using quiet_fetch_names [of w e raw_base "[robot_name e, ''catch-all'']"]
    by (simp add: fetch_cluster_url_from_github_raw_def)
  let ?w2 = "if 0 < n \<and> 0 < REDIRECT_RETRY_DELAY e then sleep (REDIRECT_RETRY_DELAY e) w1 else w1"
  have "quiet w1 ?w2" by (simp add: quiet_sleep quiet_refl)
  with q have "quiet w ?w2" by (rule quiet_trans)
  then have "quiet w (snd (github_attempts e raw_base n ?w2))"
    using Suc.IH [of ?w2] by (rule quiet_trans)
  with q f show ?case by simp
qed

lemma follow_redirects_frame:
  "quiet w (snd (follow_redirects e n url seen w))
   \<and> clock (snd (follow_redirects e n url seen w)) \<le> clock w + n"
proof (induction n arbitrary: url seen w)
  case 0
  show ?case by (simp add: quiet_refl)
next
  case (Suc n)
  show ?case
  proof (cases "url \<in> seen")
    case True
    then show ?thesis by (simp add: quiet_refl)
  next
    case False
    obtain r w1 where g: "requests_get e url w = (r, w1)"
      by (cases "requests_get e url w")
    then have q: "quiet w w1" and c: "clock w1 = Suc (clock w)"
      by (simp_all add: requests_get_eq)
    have step: "quiet w (snd (follow_redirects e n u s w1))
        \<and> clock (snd (follow_redirects e n u s w1)) \<le> clock w + Suc n" for u s
      using Suc.IH [of w1 u s] q c by (auto intro: quiet_trans)
    show ?thesis
    proof (cases r)
      case RequestException
      with False g q c show ?thesis by simp
    next
      case (Response resp)
      with False g q c step show ?thesis
        by (simp add: Let_def split: option.splits)
    qed
  qed
qed

lemma redirect_attempts_frame:
  "quiet w (snd (redirect_attempts e n w))
   \<and> clock (snd (redirect_attempts e n w)) \<le> clock w + 10 * n"
proof (induction n arbitrary: w)
  case 0
  show ?case by (simp add: quiet_refl)
next
  case (Suc n)
  obtain r w1 where f: "follow_redirects e 10 (REDIRECT_URL e) {} w = (r, w1)"
    by (cases "follow_redirects e 10 (REDIRECT_URL e) {} w")
  then have q: "quiet w w1" and c: "clock w1 \<le> clock w + 10"
    using follow_redirects_frame [of w e 10 "REDIRECT_URL e" "{}"] by simp_all
  let ?w2 = "if 0 < n \<and> 0 < REDIRECT_RETRY_DELAY e then sleep (REDIRECT_RETRY_DELAY e) w1 else w1"
  have "quiet w1 ?w2"
    by (simp add: quiet_sleep quiet_refl)
  have c2: "clock ?w2 = clock w1"
    by (simp add: sleep_def)
  with q have "quiet w ?w2" using \<open>quiet w1 ?w2\<close> by (blast intro: quiet_trans)
  then have "quiet w (snd (redirect_attempts e n ?w2))"
    using Suc.IH [of ?w2] by (blast intro: quiet_trans)
  moreover have "clock (snd (redirect_attempts e n ?w2)) \<le> clock w + 10 * Suc n"
    using Suc.IH [of ?w2] c c2 by simp
  ultimately show ?case
    using f q c by (cases r) simp_all
qed

lemma quiet_get_cluster_url: "quiet w (snd (get_cluster_url e w))"
  using quiet_github_attempts [of w e "the (github_raw_base_url e)" "nat (REDIRECT_RETRIES e)"]
    redirect_attempts_frame [of w e "nat (REDIRECT_RETRIES e)"]
  by (auto simp add: get_cluster_url_def quiet_refl split: prod.splits)

lemma quiet_query_event_id: "quiet w (snd (query_event_id e url w))"
proof -
  obtain r w1 where g: "requests_get e (rstrip_slash (before_query url) @ ''/control/eventId'') w = (r, w1)"
    by (cases "requests_get e (rstrip_slash (before_query url) @ ''/control/eventId'') w")
  then have "quiet w w1" by (simp add: requests_get_eq)
  with g show ?thesis
    by (cases r) (simp_all add: query_event_id_def Let_def)
qed

subsection \<open>EndpointResolver: the redirect chase\<close>

lemma follow_redirects_fresh:
  "\<exists>us. trace (snd (follow_redirects e n url seen w)) = trace w @ map Get us
     \<and> distinct us \<and> set us \<inter> seen = {} \<and> length us \<le> n"
proof (induction n arbitrary: url seen w)
  case 0
  show ?case by simp
next
  case (Suc n)
  show ?case
  proof (cases "url \<in> seen")
    case True
    then show ?thesis by simp
  next
    case False
    let ?w1 = "w\<lparr>clock := Suc (clock w), trace := trace w @ [Get url]\<rparr>"
    have g: "requests_get e url w = (http_get e (clock w) url, ?w1)"
      by (simp add: requests_get_def)
    have stop: "\<exists>us. trace ?w1 = trace w @ map Get us
        \<and> distinct us \<and> set us \<inter> seen = {} \<and> length us \<le> Suc n"
      using False by (intro exI [of _ "[url]"]) simp
    have step: "\<exists>us. trace (snd (follow_redirects e n u (insert url seen) ?w1))
          = trace w @ map Get us
        \<and> distinct us \<and> set us \<inter> seen = {} \<and> length us \<le> Suc n" for u
    proof -
      from Suc.IH [of u "insert url seen" ?w1] obtain us where
        us: "trace (snd (follow_redirects e n u (insert url seen) ?w1)) = trace ?w1 @ map Get us"
          "distinct us" "set us \<inter> insert url seen = {}" "length us \<le> n"
        by blast
      then show ?thesis
        using False by (intro exI [of _ "url # us"]) auto
    qed
    show ?thesis
    proof (cases "http_get e (clock w) url")
      case RequestException
      with False g stop show ?thesis by simp
    next
      case (Response resp)
      with False g stop step show ?thesis
        by (simp add: Let_def split: option.splits)
    qed
  qed
qed

text \<open>
  C7: the redirect chase always ends.  One attempt makes at most 10 requests and never
  requests the same URL twice; a URL that was already requested in the attempt ends the
  attempt at once, without a request, as a redirect loop; a redirect loop ends the
  strategy with no cluster URL and no further attempt; and the whole strategy makes at
  most 10 requests per configured attempt.
\<close>

theorem redirect_chase_bounded:
  "(\<exists>us. new_events w (snd (follow_redirects e 10 url seen w)) = map Get us
       \<and> distinct us \<and> set us \<inter> seen = {} \<and> length us \<le> 10)
   \<and> clock (snd (redirect_attempts e n w)) \<le> clock w + 10 * n
   \<and> (url \<in> seen \<longrightarrow> follow_redirects e (Suc k) url seen w = (Redirect_loop, w))
   \<and> (fst (follow_redirects e 10 (REDIRECT_URL e) {} w) = Redirect_loop \<longrightarrow>
        redirect_attempts e (Suc n) w
        = (Inr None, snd (follow_redirects e 10 (REDIRECT_URL e) {} w)))
   \<and> (\<not> (REDIRECT_URL_IS_CLUSTER e \<and> REDIRECT_URL e \<noteq> []) \<and> \<not> present (github_raw_base_url e)
        \<longrightarrow> clock (snd (get_cluster_url e w)) \<le> clock w + 10 * nat (REDIRECT_RETRIES e))"
proof (intro conjI impI)
  show "\<exists>us. new_events w (snd (follow_redirects e 10 url seen w)) = map Get us
       \<and> distinct us \<and> set us \<inter> seen = {} \<and> length us \<le> 10"
    using follow_redirects_fresh [of e 10 url seen w] by (auto simp: new_events_def)
  show "clock (snd (redirect_attempts e n w)) \<le> clock w + 10 * n"
    using redirect_attempts_frame [of w e n] by simp
  show "follow_redirects e (Suc k) url seen w = (Redirect_loop, w)" if "url \<in> seen"
    using that by simp
  show "redirect_attempts e (Suc n) w
        = (Inr None, snd (follow_redirects e 10 (REDIRECT_URL e) {} w))"
    if "fst (follow_redirects e 10 (REDIRECT_URL e) {} w) = Redirect_loop"
    using that by (cases "follow_redirects e 10 (REDIRECT_URL e) {} w") simp
  show "clock (snd (get_cluster_url e w)) \<le> clock w + 10 * nat (REDIRECT_RETRIES e)"
    if "\<not> (REDIRECT_URL_IS_CLUSTER e \<and> REDIRECT_URL e \<noteq> []) \<and> \<not> present (github_raw_base_url e)"
    using that redirect_attempts_frame [of w e "nat (REDIRECT_RETRIES e)"]
    by (auto simp: get_cluster_url_def)
qed

theorem redirect_chase_bounded_witness:
  "''http://a'' \<in> {''http://a''}
   \<and> follow_redirects cyclic_env (Suc 0) ''http://a'' {''http://a''} ex_world
       = (Redirect_loop, ex_world)
   \<and> fst (follow_redirects cyclic_env 10 (REDIRECT_URL cyclic_env) {} ex_world) = Redirect_loop
   \<and> redirect_attempts cyclic_env (Suc 2) ex_world
       = (Inr None, snd (follow_redirects cyclic_env 10 (REDIRECT_URL cyclic_env) {} ex_world))
   \<and> clock (snd (redirect_attempts cyclic_env 3 ex_world)) \<le> clock ex_world + 10 * 3
   \<and> get_cluster_url cyclic_env ex_world
       = (Inr None, \<lparr>clock = 2, event_id_file = Text ''ev-1'', token_file = None,
                     trace = [Get ''http://a'', Get ''http://b'']\<rparr>)
   \<and> clock (snd (get_cluster_url cyclic_env ex_world))
       \<le> clock ex_world + 10 * nat (REDIRECT_RETRIES cyclic_env)"
proof -
  have loop: "fst (follow_redirects cyclic_env 10 (REDIRECT_URL cyclic_env) {} ex_world)
      = Redirect_loop"
    by code_simp
  have strategy: "\<not> (REDIRECT_URL_IS_CLUSTER cyclic_env \<and> REDIRECT_URL cyclic_env \<noteq> [])
      \<and> \<not> present (github_raw_base_url cyclic_env)"
    by code_simp
  have result: "get_cluster_url cyclic_env ex_world
       = (Inr None, \<lparr>clock = 2, event_id_file = Text ''ev-1'', token_file = None,
                     trace = [Get ''http://a'', Get ''http://b'']\<rparr>)"
    by code_simp
  show ?thesis
    using loop strategy result
      redirect_chase_bounded [of ex_world cyclic_env "''http://a''" "{''http://a''}" 3 0]
      redirect_chase_bounded [of ex_world cyclic_env "''http://a''" "{''http://a''}" 2 0]
    by simp
qed

subsection \<open>StateStore: writing and reading back the cached event id\<close>

lemma isspace_LF: "isspace (CHR 0x0A)"
  by (simp add: isspace_def)

lemma universal_newlines_no_CR:
  "CHR 0x0D \<notin> set s \<Longrightarrow> universal_newlines s = s"
  by (induction s rule: universal_newlines.induct) auto

lemma strip_Nil_iff: "strip s = [] \<longleftrightarrow> (\<forall>c\<in>set s. isspace c)"
proof -
  have "strip s = [] \<longleftrightarrow> (\<forall>c\<in>set (dropWhile isspace s). isspace c)"
    by (simp add: strip_def)
  also have "\<dots> \<longleftrightarrow> dropWhile isspace s = []"
    by (metis dropWhile_eq_Nil_conv dropWhile_idem)
  also have "\<dots> \<longleftrightarrow> (\<forall>c\<in>set s. isspace c)"
    by simp
  finally show ?thesis .
qed

lemma universal_newlines_isspace:
  "\<forall>c\<in>set s. isspace c \<Longrightarrow> \<forall>c\<in>set (universal_newlines s). isspace c"
  by (induction s rule: universal_newlines.induct) (auto simp: isspace_LF)

text \<open>
  C9, as the code has it: for every event id \<open>s\<close> that is not empty, equals its own
  \<open>strip()\<close> and holds no carriage return, if \<open>cache_event_id(s)\<close> returns true then
  \<open>get_cached_event_id()\<close> right after it returns \<open>s\<close>; and a cache file whose text strips
  to the empty string is read as absent.  (The file is read back in text mode, where a
  carriage return arrives as a line feed.)
\<close>

theorem cache_roundtrip:
  "(s \<noteq> [] \<and> strip s = s \<and> CHR 0x0D \<notin> set s \<and> cache_event_id e (PyStr s) w = (True, w')
      \<longrightarrow> get_cached_event_id w' = Some s)
   \<and> (event_id_file w = Text c \<and> strip c = [] \<longrightarrow> get_cached_event_id w = None)"
proof (intro conjI impI)
  assume a: "s \<noteq> [] \<and> strip s = s \<and> CHR 0x0D \<notin> set s
    \<and> cache_event_id e (PyStr s) w = (True, w')"
  then have "event_id_file w' = Text s"
    by (auto simp: cache_event_id_def split: write_fault.splits)
  with a show "get_cached_event_id w' = Some s"
    by (simp add: get_cached_event_id_def universal_newlines_no_CR)
next
  assume a: "event_id_file w = Text c \<and> strip c = []"
  then have "strip (universal_newlines c) = []"
    using universal_newlines_isspace [of c] by (simp add: strip_Nil_iff)
  with a show "get_cached_event_id w = None"
    by (simp add: get_cached_event_id_def)
qed

theorem cache_roundtrip_witness:
  "get_cached_event_id (snd (cache_event_id ex_env (PyStr ''ev-42'') ex_world)) = Some ''ev-42''
   \<and> get_cached_event_id (ex_world\<lparr>event_id_file := Text '' ''\<rparr>) = None"
  using cache_roundtrip [where s = "''ev-42''" and e = ex_env and w = ex_world
      and w' = "snd (cache_event_id ex_env (PyStr ''ev-42'') ex_world)"]
    cache_roundtrip [where w = "ex_world\<lparr>event_id_file := Text '' ''\<rparr>" and c = "'' ''"]
  by (simp add: strip_def isspace_def cache_event_id_def ex_env_def)

text \<open>
  C9 as stated fails on an id with a carriage return inside: \<open>a CR b\<close> is not empty and
  equals its own \<open>strip()\<close>, \<open>cache_event_id\<close> returns true, and the id read back is
  \<open>a LF b\<close>.
\<close>

theorem cache_roundtrip_counterexample:
  "[CHR ''a'', CHR 0x0D, CHR ''b''] \<noteq> []
   \<and> strip [CHR ''a'', CHR 0x0D, CHR ''b''] = [CHR ''a'', CHR 0x0D, CHR ''b'']
   \<and> fst (cache_event_id ex_env (PyStr [CHR ''a'', CHR 0x0D, CHR ''b'']) ex_world)
   \<and> get_cached_event_id
       (snd (cache_event_id ex_env (PyStr [CHR ''a'', CHR 0x0D, CHR ''b'']) ex_world))
     = Some [CHR ''a'', CHR 0x0A, CHR ''b'']
   \<and> get_cached_event_id
       (snd (cache_event_id ex_env (PyStr [CHR ''a'', CHR 0x0D, CHR ''b'']) ex_world))
     \<noteq> Some [CHR ''a'', CHR 0x0D, CHR ''b'']"
  by (simp add: strip_def isspace_def cache_event_id_def ex_env_def get_cached_event_id_def)

subsection \<open>TunnelProbe\<close>

text \<open>
  C6: \<open>check_skupper_tunnel\<close> answers "up" exactly when the status command exits with
  status 0 and its output, in lower case, contains both \<open>connected to\<close> and \<open>other site\<close>.
  Hence one marker alone, a missing binary, a non-zero exit and a timeout all give
  "down".
\<close>

theorem check_skupper_tunnel_up_iff:
  "fst (check_skupper_tunnel e w) \<longleftrightarrow>
     (\<exists>out err. skupper_status e (clock w) = Exited 0 out err
        \<and> sublist ''connected to'' (lower out) \<and> sublist ''other site'' (lower out))"
  by (cases "skupper_status e (clock w)") (auto simp: check_skupper_tunnel_def Let_def)

theorem check_skupper_tunnel_witness:
  "fst (check_skupper_tunnel ex_env ex_world)
   \<and> \<not> fst (check_skupper_tunnel
              (ex_env\<lparr>skupper_status := (\<lambda>n. Exited 0 ''connected to'' [])\<rparr>) ex_world)
   \<and> \<not> fst (check_skupper_tunnel (ex_env\<lparr>skupper_status := (\<lambda>n. TimedOut)\<rparr>) ex_world)"
proof -
  have "skupper_status ex_env (clock ex_world) = Exited 0 ''Connected to 1 other site'' []"
    by (simp add: ex_env_def)
  moreover have "sublist ''connected to'' (lower ''Connected to 1 other site'')"
    by code_simp
  moreover have "sublist ''other site'' (lower ''Connected to 1 other site'')"
    by code_simp
  ultimately have "fst (check_skupper_tunnel ex_env ex_world)"
    using check_skupper_tunnel_up_iff [of ex_env ex_world] by blast
  moreover have "\<not> sublist ''other site'' (lower ''connected to'')"
    by code_simp
  then have "\<not> fst (check_skupper_tunnel
                     (ex_env\<lparr>skupper_status := (\<lambda>n. Exited 0 ''connected to'' [])\<rparr>) ex_world)"
    using check_skupper_tunnel_up_iff
      [of "ex_env\<lparr>skupper_status := (\<lambda>n. Exited 0 ''connected to'' [])\<rparr>" ex_world]
    by simp
  moreover have "\<not> fst (check_skupper_tunnel (ex_env\<lparr>skupper_status := (\<lambda>n. TimedOut)\<rparr>) ex_world)"
    using check_skupper_tunnel_up_iff [of "ex_env\<lparr>skupper_status := (\<lambda>n. TimedOut)\<rparr>" ex_world]
    by simp
  ultimately show ?thesis by simp
qed

subsection \<open>Provisioner\<close>




lemma run_once_frame:
  assumes "run_ansible_playbook_once e tok w = (res, w1)"
  shows "event_id_file w1 = event_id_file w
     \<and> (\<exists>es. trace w1 = trace w @ es \<and> (\<forall>ev\<in>set es. provisioning ev)
          \<and> (res = Inr True \<longleftrightarrow> tool_succeeded es))
     \<and> (res = Inr True \<longrightarrow> token_file w1 \<noteq> None)
     \<and> (token_file w1 = None \<longrightarrow> token_file w = None)"
proof (cases tok)
  case (PyStr t)
  show ?thesis
  proof (cases "token_write_fails e")
    case True
    with PyStr assms show ?thesis
      by (auto simp: run_ansible_playbook_once_def tool_succeeded_def)
  next
    case False
    with PyStr assms show ?thesis
      by (cases "ansible_playbook e (clock w)")
         (auto simp: run_ansible_playbook_once_def Let_def tool_succeeded_def)
  qed
next
  case PyNone
  with assms show ?thesis
    by (auto simp: run_ansible_playbook_once_def tool_succeeded_def)
next
  case (PyOther b)
  with assms show ?thesis
    by (auto simp: run_ansible_playbook_once_def tool_succeeded_def)
qed

lemma tool_succeeded_append:
  "tool_succeeded (xs @ ys) \<longleftrightarrow> tool_succeeded xs \<or> tool_succeeded ys"
  by (simp add: tool_succeeded_def)

lemma playbook_attempts_frame:
  "playbook_attempts e tok a n w = (res, w') \<Longrightarrow>
     event_id_file w' = event_id_file w
     \<and> (\<exists>es. trace w' = trace w @ es \<and> (\<forall>ev\<in>set es. provisioning ev)
          \<and> (res = Inr True \<longleftrightarrow> tool_succeeded es))
     \<and> (res = Inr True \<longrightarrow> token_file w' \<noteq> None)
     \<and> (token_file w' = None \<longrightarrow> token_file w = None)"
proof (induction n arbitrary: a w)
  case 0
  then show ?case by (auto simp: tool_succeeded_def)
next
  case (Suc n)
  show ?case
  proof (cases "1 < a \<and> PLAYBOOK_RETRY_DELAY e < 0")
    case True
    with Suc.prems show ?thesis by (auto simp: tool_succeeded_def)
  next
    case False
    let ?w0 = "if 1 < a then sleep (PLAYBOOK_RETRY_DELAY e) w else w"
    obtain r w1 where once: "run_ansible_playbook_once e tok ?w0 = (r, w1)"
      by (cases "run_ansible_playbook_once e tok ?w0")
    from run_once_frame [OF once] obtain es1 where
      f1: "event_id_file w1 = event_id_file ?w0" "trace w1 = trace ?w0 @ es1"
        "\<forall>ev\<in>set es1. provisioning ev" "r = Inr True \<longleftrightarrow> tool_succeeded es1"
        "r = Inr True \<longrightarrow> token_file w1 \<noteq> None"
        "token_file w1 = None \<longrightarrow> token_file ?w0 = None"
      by auto
    obtain es0 where f0: "event_id_file ?w0 = event_id_file w" "trace ?w0 = trace w @ es0"
      "\<forall>ev\<in>set es0. provisioning ev" "\<not> tool_succeeded es0" "token_file ?w0 = token_file w"
      by (cases "1 < a") (auto simp: sleep_def tool_succeeded_def)
    show ?thesis
    proof (cases "r = Inr False")
      case True
      with Suc.prems False once
      have rec: "playbook_attempts e tok (Suc a) n w1 = (res, w')"
        by (simp del: One_nat_def)
      from Suc.IH [OF rec] obtain es2 where
        f2: "event_id_file w' = event_id_file w1" "trace w' = trace w1 @ es2"
          "\<forall>ev\<in>set es2. provisioning ev" "res = Inr True \<longleftrightarrow> tool_succeeded es2"
          "res = Inr True \<longrightarrow> token_file w' \<noteq> None"
          "token_file w' = None \<longrightarrow> token_file w1 = None"
        by auto
      have "trace w' = trace w @ (es0 @ es1 @ es2)"
        using f0(2) f1(2) f2(2) by simp
      moreover have "\<forall>ev\<in>set (es0 @ es1 @ es2). provisioning ev"
        using f0(3) f1(3) f2(3) by auto
      moreover have "res = Inr True \<longleftrightarrow> tool_succeeded (es0 @ es1 @ es2)"
        using f0(4) f1(4) f2(4) True by (simp add: tool_succeeded_append)
      ultimately show ?thesis
        using f0(1) f1(1) f2(1) f2(5) f0(5) f1(6) f2(6) by (metis (lifting))
    next
      case ne: False
      have rw: "res = r \<and> w' = w1"
      proof (cases r)
        case (Inl x)
        with Suc.prems False once show ?thesis by (simp del: One_nat_def)
      next
        case (Inr ok)
        with ne have "ok" by simp
        with Inr Suc.prems False once show ?thesis by (simp del: One_nat_def)
      qed
      have "trace w' = trace w @ (es0 @ es1)"
        using f0(2) f1(2) rw by simp
      moreover have "\<forall>ev\<in>set (es0 @ es1). provisioning ev"
        using f0(3) f1(3) by auto
      moreover have "res = Inr True \<longleftrightarrow> tool_succeeded (es0 @ es1)"
        using f0(4) f1(4) rw by (simp add: tool_succeeded_append)
      ultimately show ?thesis
        using f0(1) f1(1) f1(5) f0(5) f1(6) rw by (metis (lifting))
    qed
  qed
qed

lemma run_ansible_playbook_frame:
  assumes "run_ansible_playbook e tok w = (res, w')"
  shows "event_id_file w' = event_id_file w
     \<and> (\<exists>es. trace w' = trace w @ es \<and> (\<forall>ev\<in>set es. provisioning ev)
          \<and> (res = Inr True \<longleftrightarrow> tool_succeeded es))
     \<and> (res = Inr True \<longrightarrow> token_file w' \<noteq> None)
     \<and> (token_file w' = None \<longrightarrow> token_file w = None)"
proof -
  obtain r where r: "playbook_attempts e tok 1 (playbook_retries e) w = (r, w')"
    and rr: "res = (case r of Inl x \<Rightarrow> Inl NameError | Inr ok \<Rightarrow> Inr ok)"
    using assms by (auto simp: run_ansible_playbook_def split: prod.splits sum.splits)
  have "res = Inr True \<longleftrightarrow> r = Inr True"
    using rr by (cases r) auto
  with playbook_attempts_frame [OF r] show ?thesis by simp
qed

lemma new_events_append: "trace w' = trace w @ es \<Longrightarrow> new_events w w' = es"
  by (simp add: new_events_def)




subsection \<open>ControlPlaneClient: the token loop\<close>

lemma token_loop_returns:
  "(\<forall>i<k. \<not> answers_200 (http_get e (clock w + i) ep)) \<Longrightarrow>
   http_get e (clock w + k) ep = Response r \<Longrightarrow> status_code r = 200 \<Longrightarrow>
   token_loop e url ep w
   = Some (case body_value ''token'' ''skupper_token'' r of
             Inl x \<Rightarrow>
               (Inl x, w\<lparr>clock := clock w + Suc k,
                         trace := trace w @ concat (replicate k [Get ep, Sleep 5]) @ [Get ep]\<rparr>)
           | Inr tok \<Rightarrow>
               (Inr tok, report_init_status url Token_retrieved
                  (w\<lparr>clock := clock w + Suc k,
                     trace := trace w @ concat (replicate k [Get ep, Sleep 5]) @ [Get ep]\<rparr>)))"
proof (induction k arbitrary: w)
  case 0
  then show ?case
    by (subst token_loop.simps) (simp add: requests_get_def split: sum.splits)
next
  case (Suc k)
  let ?w1 = "sleep 5 (w\<lparr>clock := Suc (clock w), trace := trace w @ [Get ep]\<rparr>)"
  have c: "clock ?w1 = Suc (clock w)" by (simp add: sleep_def)
  have n0: "\<not> answers_200 (http_get e (clock w) ep)"
    using Suc.prems(1) by (metis add.right_neutral zero_less_Suc)
  have step: "token_loop e url ep w = token_loop e url ep ?w1"
    using n0 by (subst token_loop.simps)
      (cases "http_get e (clock w) ep", simp_all add: requests_get_def)
  have a1: "\<forall>i<k. \<not> answers_200 (http_get e (clock ?w1 + i) ep)"
    using Suc.prems(1) c by auto
  have a2: "http_get e (clock ?w1 + k) ep = Response r"
    using Suc.prems(2) c by simp
  show ?case
    unfolding step Suc.IH [OF a1 a2 Suc.prems(3)]
    by (simp add: sleep_def split: sum.splits)
qed

lemma token_loop_diverges_aux:
  assumes "token_loop e url ep w = Some y"
  shows "\<exists>i. answers_200 (http_get e (clock w + i) ep)"
proof (rule token_loop.raw_induct
    [where P = "\<lambda>(e::env) (url::string) ep (w::world) (y::(exn + pyval) \<times> world).
                  \<exists>i. answers_200 (http_get e (clock w + i) ep)", OF _ assms])
  fix f :: "env \<Rightarrow> string \<Rightarrow> string \<Rightarrow> world \<Rightarrow> ((exn + pyval) \<times> world) option"
    and e :: env and url ep :: string and w :: world and y :: "(exn + pyval) \<times> world"
  assume IH: "\<And>(e::env) (url::string) ep (w::world) y. f e url ep w = Some y
      \<Longrightarrow> \<exists>i. answers_200 (http_get e (clock w + i) ep)"
  assume eq: "(case requests_get e ep w of
        (Response r, w1) \<Rightarrow>
          if status_code r = 200 then
            (case body_value ''token'' ''skupper_token'' r of
               Inl x \<Rightarrow> Some (Inl x, w1)
             | Inr token \<Rightarrow> Some (Inr token, report_init_status url Token_retrieved w1))
          else f e url ep (sleep 5 w1)
      | (RequestException, w1) \<Rightarrow> f e url ep (sleep 5 w1)) = Some y"
  show "\<exists>i. answers_200 (http_get e (clock w + i) ep)"
  proof (cases "answers_200 (http_get e (clock w) ep)")
    case True
    then show ?thesis by (metis add.right_neutral)
  next
    case False
    let ?w1 = "sleep 5 (w\<lparr>clock := Suc (clock w), trace := trace w @ [Get ep]\<rparr>)"
    from False eq have "f e url ep ?w1 = Some y"
      by (cases "http_get e (clock w) ep") (simp_all add: requests_get_def)
    from IH [OF this] obtain i where "answers_200 (http_get e (clock ?w1 + i) ep)" ..
    then have "answers_200 (http_get e (clock w + Suc i) ep)"
      by (simp add: sleep_def)
    then show ?thesis ..
  qed
qed

lemma token_loop_diverges:
  "(\<forall>i. \<not> answers_200 (http_get e (clock w + i) ep)) \<Longrightarrow> token_loop e url ep w = None"
  using token_loop_diverges_aux [of e url ep w] by (cases "token_loop e url ep w") auto

lemma quiet_token_loop:
  assumes "token_loop e url ep w = Some (res, w')"
  shows "quiet w w'"
proof -
  from token_loop_diverges_aux [OF assms]
  obtain i where i: "answers_200 (http_get e (clock w + i) ep)" ..
  define k where "k = (LEAST i. answers_200 (http_get e (clock w + i) ep))"
  have k: "answers_200 (http_get e (clock w + k) ep)"
    unfolding k_def using i by (rule LeastI)
  have lt: "\<forall>j<k. \<not> answers_200 (http_get e (clock w + j) ep)"
    unfolding k_def using not_less_Least by blast
  from k obtain r where r: "http_get e (clock w + k) ep = Response r" "status_code r = 200"
    by (cases "http_get e (clock w + k) ep") auto
  have "quiet w (w\<lparr>clock := clock w + Suc k,
      trace := trace w @ concat (replicate k [Get ep, Sleep 5]) @ [Get ep]\<rparr>)" (is "quiet w ?W")
    by (auto simp: quiet_def)
  moreover have "quiet ?W (report_init_status url Token_retrieved ?W)"
    by (simp add: quiet_report)
  ultimately have "quiet w (report_init_status url Token_retrieved ?W)"
    by (rule quiet_trans)
  with \<open>quiet w ?W\<close> assms token_loop_returns [OF lt r, of url] show ?thesis
    by (auto split: sum.splits)
qed

lemma quiet_query_skupper_token:
  assumes "query_skupper_token e url w = Some (res, w')"
  shows "quiet w w'"
proof -
  have "quiet w (report_init_status url Querying_token w)"
    by (simp add: quiet_report)
  moreover have "quiet (report_init_status url Querying_token w) w'"
    using assms quiet_token_loop by (simp add: query_skupper_token_def)
  ultimately show ?thesis by (rule quiet_trans)
qed

text \<open>
  C8: \<open>query_skupper_token\<close> asks again, 5 seconds after every answer that is not a 200
  and after every network error, for as long as it takes: when no answer is ever a 200
  it never returns, and otherwise it returns at the first 200, after one request and one
  delay per earlier answer, with the token read from the body of that 200 (or with the
  AttributeError that reading that body raises).  No answer but a 200 makes it return
  or raise.
\<close>

theorem query_skupper_token_retries:
  "((\<forall>i. \<not> answers_200 (http_get e (clock w + i) (control_base url @ ''/getToken'')))
      \<longrightarrow> query_skupper_token e url w = None)
   \<and> ((\<forall>i<k. \<not> answers_200 (http_get e (clock w + i) (control_base url @ ''/getToken'')))
       \<and> http_get e (clock w + k) (control_base url @ ''/getToken'') = Response r
       \<and> status_code r = 200
      \<longrightarrow> query_skupper_token e url w
          = Some (case body_value ''token'' ''skupper_token'' r of
                    Inl x \<Rightarrow>
                      (Inl x,
                       w\<lparr>clock := clock w + Suc k,
                         trace := trace w
                           @ Post (control_base url @ ''/initStatus'') Querying_token
                           # concat (replicate k [Get (control_base url @ ''/getToken''), Sleep 5])
                           @ [Get (control_base url @ ''/getToken'')]\<rparr>)
                  | Inr tok \<Rightarrow>
                      (Inr tok,
                       report_init_status url Token_retrieved
                         (w\<lparr>clock := clock w + Suc k,
                            trace := trace w
                              @ Post (control_base url @ ''/initStatus'') Querying_token
                              # concat (replicate k [Get (control_base url @ ''/getToken''), Sleep 5])
                              @ [Get (control_base url @ ''/getToken'')]\<rparr>))))"
proof (intro conjI impI)
  let ?ep = "control_base url @ ''/getToken''"
  let ?w0 = "report_init_status url Querying_token w"
  have c: "clock ?w0 = clock w" by (simp add: report_init_status_def)
  show "query_skupper_token e url w = None"
    if "\<forall>i. \<not> answers_200 (http_get e (clock w + i) ?ep)"
    using that token_loop_diverges [of e ?w0 ?ep url] c
    by (simp add: query_skupper_token_def)
  assume a: "(\<forall>i<k. \<not> answers_200 (http_get e (clock w + i) ?ep))
       \<and> http_get e (clock w + k) ?ep = Response r \<and> status_code r = 200"
  then have "\<forall>i<k. \<not> answers_200 (http_get e (clock ?w0 + i) ?ep)"
    and "http_get e (clock ?w0 + k) ?ep = Response r" and "status_code r = 200"
    using c by simp_all
  from token_loop_returns [OF this, of url]
  show "query_skupper_token e url w
          = Some (case body_value ''token'' ''skupper_token'' r of
                    Inl x \<Rightarrow>
                      (Inl x,
                       w\<lparr>clock := clock w + Suc k,
                         trace := trace w
                           @ Post (control_base url @ ''/initStatus'') Querying_token
                           # concat (replicate k [Get ?ep, Sleep 5])
                           @ [Get ?ep]\<rparr>)
                  | Inr tok \<Rightarrow>
                      (Inr tok,
                       report_init_status url Token_retrieved
                         (w\<lparr>clock := clock w + Suc k,
                            trace := trace w
                              @ Post (control_base url @ ''/initStatus'') Querying_token
                              # concat (replicate k [Get ?ep, Sleep 5])
                              @ [Get ?ep]\<rparr>)))"
    by (simp add: query_skupper_token_def report_init_status_def split: sum.splits)
qed

theorem query_skupper_token_retries_witness:
  "query_skupper_token silent_env ''http://r/'' ex_world = None
   \<and> query_skupper_token flaky_env ''http://r/'' ex_world
     = Some (Inr (PyStr ''tok''),
             \<lparr>clock = 3, event_id_file = Text ''ev-1'', token_file = None,
              trace = [Post ''http://r/control/initStatus'' Querying_token,
                       Get ''http://r/control/getToken'', Sleep 5,
                       Get ''http://r/control/getToken'', Sleep 5,
                       Get ''http://r/control/getToken'',
                       Post ''http://r/control/initStatus'' Token_retrieved]\<rparr>)"
proof -
  have cb: "control_base ''http://r/'' = ''http://r/control''"
    by (simp add: control_base_def rstrip_slash_def before_query_def)
  have "\<forall>i. \<not> answers_200 (http_get silent_env (clock ex_world + i)
                 (control_base ''http://r/'' @ ''/getToken''))"
    by (simp add: silent_env_def)
  then have 1: "query_skupper_token silent_env ''http://r/'' ex_world = None"
    using query_skupper_token_retries [where e = silent_env and w = ex_world
        and url = "''http://r/''"]
    by blast
  have "(\<forall>i<2. \<not> answers_200 (http_get flaky_env (clock ex_world + i)
                  (control_base ''http://r/'' @ ''/getToken'')))
      \<and> http_get flaky_env (clock ex_world + 2) (control_base ''http://r/'' @ ''/getToken'')
          = Response (ok_response ''tok'')
      \<and> status_code (ok_response ''tok'') = 200"
    by (auto simp: cb flaky_env_def ex_env_def ex_world_def ok_response_def)
  from query_skupper_token_retries [where e = flaky_env and w = ex_world
        and url = "''http://r/''" and k = 2 and r = "ok_response ''tok''",
        THEN conjunct2, rule_format, OF this]
  have 2: "query_skupper_token flaky_env ''http://r/'' ex_world
     = Some (Inr (PyStr ''tok''),
             \<lparr>clock = 3, event_id_file = Text ''ev-1'', token_file = None,
              trace = [Post ''http://r/control/initStatus'' Querying_token,
                       Get ''http://r/control/getToken'', Sleep 5,
                       Get ''http://r/control/getToken'', Sleep 5,
                       Get ''http://r/control/getToken'',
                       Post ''http://r/control/initStatus'' Token_retrieved]\<rparr>)"
    by (simp add: cb body_value_def ok_response_def strip_def isspace_def
        report_init_status_def ex_world_def numeral_2_eq_2)
  from 1 2 show ?thesis ..
qed

subsection \<open>Orchestrator\<close>

lemma calm_facts:
  "calm ev \<Longrightarrow> \<not> is_skupper ev \<and> \<not> is_playbook ev \<and> \<not> playbook_ok ev
     \<and> ev \<noteq> Post u Failed_configure"
  by (cases ev) auto

lemma provisioning_facts:
  "provisioning ev \<Longrightarrow> \<not> is_skupper ev \<and> ev \<noteq> Post u st"
  by (cases ev) auto

lemma calm_not_succeeded: "\<forall>ev\<in>set es. calm ev \<Longrightarrow> \<not> tool_succeeded es"
  by (auto simp: tool_succeeded_def list_ex_iff dest: calm_facts)

lemma check_skupper_tunnel_eq:
  "check_skupper_tunnel e w
   = (reports_up (skupper_status e (clock w)),
      w\<lparr>clock := Suc (clock w), trace := trace w @ [Skupper (skupper_status e (clock w))]\<rparr>)"
  by (cases "skupper_status e (clock w)") (auto simp: check_skupper_tunnel_def Let_def)

lemma remove_token_file_present:
  assumes "token_file w \<noteq> None"
  shows "trace (remove_token_file_after_tunnel_up e w)
           = trace w @ [Sleep 15, Skupper (skupper_status e (clock w))]
     \<and> event_id_file (remove_token_file_after_tunnel_up e w) = event_id_file w
     \<and> (token_file (remove_token_file_after_tunnel_up e w) = None
          \<longleftrightarrow> reports_up (skupper_status e (clock w)) \<and> \<not> unlink_fails e)"
  using assms
  by (cases "reports_up (skupper_status e (clock w))")
     (auto simp: remove_token_file_after_tunnel_up_def check_skupper_tunnel_eq sleep_def)

lemma remove_token_file_clock:
  "token_file w \<noteq> None \<Longrightarrow> clock (remove_token_file_after_tunnel_up e w) = Suc (clock w)"
  by (cases "reports_up (skupper_status e (clock w))")
     (auto simp: remove_token_file_after_tunnel_up_def check_skupper_tunnel_eq sleep_def)

lemma cache_event_id_cases:
  assumes "cache_event_id e cur w = (b, w')"
  shows "trace w' = trace w \<and> token_file w' = token_file w \<and> clock w' = clock w
     \<and> (if b then \<exists>s. cur = PyStr s \<and> event_id_file w' = Text s
         else (event_id_file w' = event_id_file w \<or> event_id_file w' = Text [])
              \<and> (cache_fault e \<noteq> NoFault \<or> (\<forall>s. cur \<noteq> PyStr s)))"
  using assms
  by (cases "cache_fault e"; cases cur) (auto simp: cache_event_id_def)

lemma configure_cases:
  assumes "configure e url cur st w = Some (res, w')" and "st \<noteq> Failed_configure"
  obtains
    (no_success) es where "trace w' = trace w @ es" "res \<noteq> Inr True"
      "\<not> tool_succeeded es" "\<forall>ev\<in>set es. \<not> is_skupper ev"
      "event_id_file w' = event_id_file w" "token_file w' = None \<longrightarrow> token_file w = None"
      "(\<exists>u. Post u Failed_configure \<in> set es) \<longrightarrow> res = Inr False"
  | (uncached) es where "trace w' = trace w @ es" "res = Inr False"
      "tool_succeeded es" "\<forall>ev\<in>set es. \<not> is_skupper ev"
      "event_id_file w' = event_id_file w \<or> event_id_file w' = Text []"
      "cache_fault e \<noteq> NoFault \<or> (\<forall>s. cur \<noteq> PyStr s)" "token_file w' \<noteq> None"
  | (cached) es s where
      "trace w' = trace w @ es @ [Sleep 15, Skupper (skupper_status e (clock w' - 1))]"
      "res = Inr True" "tool_succeeded es" "\<forall>ev\<in>set es. \<not> is_skupper ev"
      "cur = PyStr s" "event_id_file w' = Text s"
      "token_file w' = None \<longleftrightarrow> reports_up (skupper_status e (clock w' - 1)) \<and> \<not> unlink_fails e"
proof -
  from assms(1) obtain r1 w1 where q: "query_skupper_token e url w = Some (r1, w1)"
    by (cases "query_skupper_token e url w") (auto simp: configure_def)
  from quiet_query_skupper_token [OF q] obtain es1 where
    f1: "event_id_file w1 = event_id_file w" "token_file w1 = token_file w"
      "trace w1 = trace w @ es1" "\<forall>ev\<in>set es1. calm ev"
    by (auto simp: quiet_def)
  have n1: "\<not> tool_succeeded es1" "\<forall>ev\<in>set es1. \<not> is_skupper ev"
    "\<forall>u. Post u Failed_configure \<notin> set es1"
    using f1(4) calm_not_succeeded calm_facts by blast+
  show ?thesis
  proof (cases "\<exists>tok. r1 = Inr tok \<and> truthy tok")
    case False
    then have "w' = w1 \<and> res \<noteq> Inr True"
      using assms(1) q by (cases r1) (auto simp: configure_def)
    with f1 n1 show ?thesis
      by (intro no_success [of es1]) auto
  next
    case True
    then obtain tok where tok: "r1 = Inr tok" "truthy tok" by blast
    let ?w1s = "report_init_status url Starting_configure w1"
    obtain r2 w2 where p: "run_ansible_playbook e tok ?w1s = (r2, w2)"
      by (cases "run_ansible_playbook e tok ?w1s")
    from run_ansible_playbook_frame [OF p] obtain es2 where
      f2: "event_id_file w2 = event_id_file ?w1s" "trace w2 = trace ?w1s @ es2"
        "\<forall>ev\<in>set es2. provisioning ev" "r2 = Inr True \<longleftrightarrow> tool_succeeded es2"
        "r2 = Inr True \<longrightarrow> token_file w2 \<noteq> None"
        "token_file w2 = None \<longrightarrow> token_file ?w1s = None"
      by auto
    let ?p = "Post (control_base url @ ''/initStatus'')"
    let ?es2 = "es1 @ [?p Starting_configure] @ es2"
    have t2: "trace w2 = trace w @ ?es2"
      using f2(2) f1(3) by (simp add: report_init_status_def)
    have e2: "event_id_file w2 = event_id_file w"
      using f2(1) f1(1) by (simp add: report_init_status_def)
    have k2: "token_file w2 = None \<longrightarrow> token_file w = None"
      using f2(6) f1(2) by (simp add: report_init_status_def)
    have n2: "\<forall>ev\<in>set ?es2. \<not> is_skupper ev"
      "\<forall>u. Post u Failed_configure \<notin> set ?es2"
      using n1 f2(3) provisioning_facts by auto
    have s2: "tool_succeeded ?es2 \<longleftrightarrow> r2 = Inr True"
      using n1(1) f2(4) by (simp add: tool_succeeded_append tool_succeeded_def)
    show ?thesis
    proof (cases r2)
      case (Inl x)
      then have "res = Inl x \<and> w' = w2"
        using assms(1) q tok p by (simp add: configure_def)
      with t2 e2 k2 n2 s2 Inl show ?thesis
        by (intro no_success [of ?es2]) auto
    next
      case (Inr ok)
      show ?thesis
      proof (cases ok)
        case False
        then have r: "res = Inr False" "w' = report_init_status url Failed_configure w2"
          using assms(1) q tok p Inr by (simp_all add: configure_def)
        have "trace w' = trace w @ (?es2 @ [?p Failed_configure])"
          using r(2) t2 by (simp add: report_init_status_def)
        moreover have "\<not> tool_succeeded (?es2 @ [?p Failed_configure])"
          using s2 Inr False by (simp add: tool_succeeded_append tool_succeeded_def)
        moreover have "\<forall>ev\<in>set (?es2 @ [?p Failed_configure]). \<not> is_skupper ev"
          using n2(1) by auto
        moreover have "event_id_file w' = event_id_file w"
          "token_file w' = None \<longrightarrow> token_file w = None"
          using r(2) e2 k2 by (simp_all add: report_init_status_def)
        ultimately show ?thesis using r(1)
          by (intro no_success [of "?es2 @ [?p Failed_configure]"]) simp_all
      next
        case True
        let ?w2s = "report_init_status url st w2"
        obtain b w3 where c: "cache_event_id e cur ?w2s = (b, w3)"
          by (cases "cache_event_id e cur ?w2s")
        note cc = cache_event_id_cases [OF c]
        let ?es = "?es2 @ [?p st]"
        have t3: "trace w3 = trace w @ ?es"
          using cc t2 by (simp add: report_init_status_def)
        have "tool_succeeded ?es2"
          using s2 Inr True by blast
        then have s3: "tool_succeeded ?es"
          using tool_succeeded_append [of ?es2 "[?p st]"] by blast
        have n3: "\<forall>ev\<in>set ?es. \<not> is_skupper ev"
          using n2(1) by auto
        have k3: "token_file w3 \<noteq> None"
          using cc f2(5) Inr True by (simp add: report_init_status_def)
        show ?thesis
        proof (cases b)
          case False
          then have r: "res = Inr False" "w' = w3"
            using assms(1) q tok p Inr True c by (simp_all add: configure_def)
          have "event_id_file w' = event_id_file w \<or> event_id_file w' = Text []"
            using cc False r(2) e2 by (auto simp: report_init_status_def)
          moreover have "cache_fault e \<noteq> NoFault \<or> (\<forall>s. cur \<noteq> PyStr s)"
            using cc False by auto
          ultimately show ?thesis
            using r t3 s3 n3 k3 by (intro uncached [of ?es]) simp_all
        next
          case b: True
          then have r: "res = Inr True" "w' = remove_token_file_after_tunnel_up e w3"
            using assms(1) q tok p Inr True c by (simp_all add: configure_def)
          note rm = remove_token_file_present [OF k3, of e]
          have cl: "clock w' - 1 = clock w3"
            using r(2) k3 cc by (simp add: remove_token_file_clock)
          from cc b obtain s where s: "cur = PyStr s" "event_id_file w3 = Text s" by auto
          have "trace w' = trace w @ ?es @ [Sleep 15, Skupper (skupper_status e (clock w' - 1))]"
            using rm r(2) t3 cl by simp
          moreover have "event_id_file w' = Text s"
            using rm r(2) s(2) by simp
          moreover have "token_file w' = None
              \<longleftrightarrow> reports_up (skupper_status e (clock w' - 1)) \<and> \<not> unlink_fails e"
            using rm r(2) cl by simp
          ultimately show ?thesis
            using r(1) s3 n3 s(1) by (intro cached [of ?es s]) simp_all
        qed
      qed
    qed
  qed
qed

lemma get_cached_event_id_nonempty: "get_cached_event_id w = Some c \<Longrightarrow> c \<noteq> []"
  by (auto simp: get_cached_event_id_def Let_def split: cache_file.splits if_splits)

lemma process_event_cases:
  assumes "process_event e w = Some (res, w')"
  obtains
    (skipped) "quiet w w'"
      "res = Inr True \<longrightarrow>
         (\<exists>c. c \<noteq> [] \<and> get_cached_event_id w = Some c \<and> current_event_id e w = Some (PyStr c))"
      "res \<noteq> Inr True \<longrightarrow>
         current_event_id e w = None \<or> (\<exists>v. current_event_id e w = Some v \<and> \<not> truthy v)"
  | (configured) url cur st w2 where "quiet w w2"
      "configure e url cur st w2 = Some (res, w')" "st \<noteq> Failed_configure"
      "current_event_id e w = Some cur" "truthy cur"
proof -
  obtain r1 w1 where g: "get_cluster_url e w = (r1, w1)"
    by (cases "get_cluster_url e w")
  then have q1: "quiet w w1"
    using quiet_get_cluster_url [of w e] by simp
  show ?thesis
  proof (cases "\<exists>u. r1 = Inr (Some u) \<and> u \<noteq> []")
    case False
    then have "w' = w1 \<and> res \<noteq> Inr True \<and> current_event_id e w = None"
      using assms g
      by (cases r1) (auto simp: process_event_def current_event_id_def present_def Let_def
          split: option.splits)
    with q1 show ?thesis by (intro skipped) auto
  next
    case True
    then obtain u where u: "r1 = Inr (Some u)" "u \<noteq> []" by blast
    obtain r2 w2 where qe: "query_event_id e u w1 = (r2, w2)"
      by (cases "query_event_id e u w1")
    then have "quiet w1 w2"
      using quiet_query_event_id [of w1 e u] by simp
    with q1 have q2: "quiet w w2" by (rule quiet_trans)
    show ?thesis
    proof (cases r2)
      case (Inl x)
      then have "w' = w2 \<and> res \<noteq> Inr True \<and> current_event_id e w = None"
        using assms g u qe
        by (auto simp: process_event_def current_event_id_def present_def Let_def)
      with q2 show ?thesis by (intro skipped) auto
    next
      case (Inr cur)
      then have cur: "current_event_id e w = Some cur"
        using g u qe by (simp add: current_event_id_def present_def)
      show ?thesis
      proof (cases "truthy cur")
        case False
        then have "w' = w2 \<and> res \<noteq> Inr True"
          using assms g u qe Inr
          by (auto simp: process_event_def present_def Let_def)
        with q2 cur False show ?thesis by (intro skipped) auto
      next
        case True
        show ?thesis
        proof (cases "present (get_cached_event_id w)")
          case False
          let ?w2 = "report_init_status u EID_unknown w2"
          have "configure e u cur Configured ?w2 = Some (res, w')"
            using assms g u qe Inr True False
            by (simp add: process_event_def present_def Let_def)
          moreover have "quiet w ?w2"
            using q2 quiet_report [of EID_unknown ?w2 u] quiet_report [of EID_unknown w2 u]
            by (auto intro: quiet_trans)
          ultimately show ?thesis
            using cur True by (intro configured [of ?w2 u cur Configured]) simp_all
        next
          case p: True
          then obtain c where c: "get_cached_event_id w = Some c" "c \<noteq> []"
            by (auto simp: present_def split: option.splits)
          show ?thesis
          proof (cases "PyStr c = cur")
            case True
            then have "res = Inr True \<and> w' = report_init_status u EID_known w2"
              using assms g u qe Inr \<open>truthy cur\<close> p c
              by (auto simp: process_event_def Let_def present_def)
            moreover have "quiet w (report_init_status u EID_known w2)"
              using q2 quiet_report [of EID_known w2 u] by (auto intro: quiet_trans)
            ultimately show ?thesis
              using c cur True by (intro skipped) auto
          next
            case False
            then have "configure e u cur Okay w2 = Some (res, w')"
              using assms g u qe Inr \<open>truthy cur\<close> p c
              by (auto simp: process_event_def Let_def present_def)
            then show ?thesis
              using q2 cur \<open>truthy cur\<close> by (intro configured [of w2 u cur Okay]) simp_all
          qed
        qed
      qed
    qed
  qed
qed

lemma process_event_outcomes:
  assumes "process_event e w = Some (res, w')"
  obtains
    (skipped) es where "trace w' = trace w @ es" "\<forall>ev\<in>set es. calm ev"
      "event_id_file w' = event_id_file w" "token_file w' = token_file w"
      "res = Inr True \<longrightarrow>
         (\<exists>c. c \<noteq> [] \<and> get_cached_event_id w = Some c \<and> current_event_id e w = Some (PyStr c))"
      "res \<noteq> Inr True \<longrightarrow>
         current_event_id e w = None \<or> (\<exists>v. current_event_id e w = Some v \<and> \<not> truthy v)"
  | (no_success) es cur where "trace w' = trace w @ es" "res \<noteq> Inr True"
      "\<not> tool_succeeded es" "\<forall>ev\<in>set es. \<not> is_skupper ev"
      "event_id_file w' = event_id_file w" "token_file w' = None \<longrightarrow> token_file w = None"
      "(\<exists>u. Post u Failed_configure \<in> set es) \<longrightarrow> res = Inr False"
      "current_event_id e w = Some cur" "truthy cur"
  | (uncached) es cur where "trace w' = trace w @ es" "res = Inr False"
      "tool_succeeded es" "\<forall>ev\<in>set es. \<not> is_skupper ev"
      "event_id_file w' = event_id_file w \<or> event_id_file w' = Text []"
      "cache_fault e \<noteq> NoFault \<or> (\<forall>s. cur \<noteq> PyStr s)" "token_file w' \<noteq> None"
      "current_event_id e w = Some cur" "truthy cur"
  | (cached) es s where
      "trace w' = trace w @ es @ [Sleep 15, Skupper (skupper_status e (clock w' - 1))]"
      "res = Inr True" "tool_succeeded es" "\<forall>ev\<in>set es. \<not> is_skupper ev"
      "current_event_id e w = Some (PyStr s)" "s \<noteq> []" "event_id_file w' = Text s"
      "token_file w' = None \<longleftrightarrow> reports_up (skupper_status e (clock w' - 1)) \<and> \<not> unlink_fails e"
using assms
proof (cases rule: process_event_cases)
  case skipped
  then obtain es where "trace w' = trace w @ es" "\<forall>ev\<in>set es. calm ev"
    "event_id_file w' = event_id_file w" "token_file w' = token_file w"
    by (auto simp: quiet_def)
  with skipped(2,3) show ?thesis by (intro that(1) [of es]) simp_all
next
  case (configured url cur st w2)
  from configured(1) obtain esq where
    q: "trace w2 = trace w @ esq" "\<forall>ev\<in>set esq. calm ev"
      "event_id_file w2 = event_id_file w" "token_file w2 = token_file w"
    by (auto simp: quiet_def)
  have nq: "\<not> tool_succeeded esq" "\<forall>ev\<in>set esq. \<not> is_skupper ev"
    "\<forall>u. Post u Failed_configure \<notin> set esq"
    using q(2) calm_not_succeeded calm_facts by blast+
  have ts: "tool_succeeded (esq @ es) \<longleftrightarrow> tool_succeeded es" for es
    using nq(1) by (simp add: tool_succeeded_append)
  from configured(2,3) show ?thesis
  proof (cases rule: configure_cases)
    case (no_success es)
    have "trace w' = trace w @ (esq @ es)" using no_success(1) q(1) by simp
    moreover have "\<not> tool_succeeded (esq @ es)" using no_success(3) ts by simp
    moreover have "\<forall>ev\<in>set (esq @ es). \<not> is_skupper ev" using no_success(4) nq(2) by auto
    moreover have "(\<exists>u. Post u Failed_configure \<in> set (esq @ es)) \<longrightarrow> res = Inr False"
      using no_success(7) nq(3) by auto
    ultimately show ?thesis
      using no_success(2,5,6) q(3,4) configured(4,5)
      by (intro that(2) [of "esq @ es" cur]) simp_all
  next
    case (uncached es)
    have "trace w' = trace w @ (esq @ es)" using uncached(1) q(1) by simp
    moreover have "tool_succeeded (esq @ es)" using uncached(3) ts by simp
    moreover have "\<forall>ev\<in>set (esq @ es). \<not> is_skupper ev" using uncached(4) nq(2) by auto
    ultimately show ?thesis
      using uncached(2,5,6,7) q(3,4) configured(4,5)
      by (intro that(3) [of "esq @ es" cur]) simp_all
  next
    case (cached es s)
    have "trace w' = trace w @ (esq @ es) @ [Sleep 15, Skupper (skupper_status e (clock w' - 1))]"
      using cached(1) q(1) by simp
    moreover have "tool_succeeded (esq @ es)" using cached(3) ts by simp
    moreover have "\<forall>ev\<in>set (esq @ es). \<not> is_skupper ev" using cached(4) nq(2) by auto
    ultimately show ?thesis
      using cached(2,5,6,7) configured(4,5)
      by (intro that(4) [of "esq @ es" s]) simp_all
  qed
qed

subsection \<open>Orchestrator: when the cached event id changes\<close>

text \<open>
  C1, as the code has it: in every run of \<open>process_event\<close> that returns, the cache file is
  changed only if the playbook exited with status 0 in that run (after the token fetch).
  When it did, \<open>cache_event_id\<close> is called with the event id that was queried: either
  the write succeeds, the file holds exactly that id and the run reports success, or
  the write fails, the run reports failure and the file is as before or truncated.
  When the cluster URL or the event id cannot be had, the run does not report success,
  the playbook does not succeed and the file is unchanged; the same holds, by the first
  part, when the token is absent or the playbook fails.
\<close>

theorem process_event_cache_update:
  "process_event e w = Some (res, w') \<longrightarrow>
     (event_id_file w' \<noteq> event_id_file w \<longrightarrow> tool_succeeded (new_events w w'))
   \<and> (tool_succeeded (new_events w w') \<longrightarrow>
        (\<exists>cur. current_event_id e w = Some cur \<and> truthy cur
           \<and> ((res = Inr True \<and> (\<exists>s. cur = PyStr s \<and> event_id_file w' = Text s))
              \<or> (res = Inr False \<and> (cache_fault e \<noteq> NoFault \<or> (\<forall>s. cur \<noteq> PyStr s))
                  \<and> (event_id_file w' = event_id_file w \<or> event_id_file w' = Text [])))))
   \<and> (current_event_id e w = None \<or> (\<exists>v. current_event_id e w = Some v \<and> \<not> truthy v) \<longrightarrow>
        res \<noteq> Inr True \<and> event_id_file w' = event_id_file w
        \<and> \<not> tool_succeeded (new_events w w'))"
proof
  assume "process_event e w = Some (res, w')"
  then show "(event_id_file w' \<noteq> event_id_file w \<longrightarrow> tool_succeeded (new_events w w'))
   \<and> (tool_succeeded (new_events w w') \<longrightarrow>
        (\<exists>cur. current_event_id e w = Some cur \<and> truthy cur
           \<and> ((res = Inr True \<and> (\<exists>s. cur = PyStr s \<and> event_id_file w' = Text s))
              \<or> (res = Inr False \<and> (cache_fault e \<noteq> NoFault \<or> (\<forall>s. cur \<noteq> PyStr s))
                  \<and> (event_id_file w' = event_id_file w \<or> event_id_file w' = Text [])))))
   \<and> (current_event_id e w = None \<or> (\<exists>v. current_event_id e w = Some v \<and> \<not> truthy v) \<longrightarrow>
        res \<noteq> Inr True \<and> event_id_file w' = event_id_file w
        \<and> \<not> tool_succeeded (new_events w w'))"
  proof (cases rule: process_event_outcomes)
    case (skipped es)
    have "new_events w w' = es" using skipped(1) by (rule new_events_append)
    moreover have "\<not> tool_succeeded es" using skipped(2) by (rule calm_not_succeeded)
    ultimately show ?thesis using skipped(3,5,6) by auto
  next
    case (no_success es cur)
    have "new_events w w' = es" using no_success(1) by (rule new_events_append)
    then show ?thesis using no_success(2,3,5,8,9) by auto
  next
    case (uncached es cur)
    have "new_events w w' = es" using uncached(1) by (rule new_events_append)
    then show ?thesis using uncached(2,3,5,6,8,9) by auto
  next
    case (cached es s)
    have ne: "new_events w w' = es @ [Sleep 15, Skupper (skupper_status e (clock w' - 1))]"
      using cached(1) by (rule new_events_append)
    have "tool_succeeded (new_events w w')"
      unfolding ne using cached(3) by (simp add: tool_succeeded_append)
    then show ?thesis using cached(2,5,6,7) by auto
  qed
qed

text \<open>
  C1 as stated fails when the cache file cannot be written: the token is fetched, the
  playbook exits with status 0 for the queried id \<open>ev-2\<close>, and the cached id stays \<open>ev-1\<close>.
\<close>

theorem process_event_cache_update_counterexample:
  "process_event denied_env ex_world
   = Some (Inr False,
       \<lparr>clock = 3, event_id_file = Text ''ev-1'', token_file = Some ''tok'',
        trace = [Get ''http://r/control/eventId'',
                 Post ''http://r/control/initStatus'' Querying_token,
                 Get ''http://r/control/getToken'',
                 Post ''http://r/control/initStatus'' Token_retrieved,
                 Post ''http://r/control/initStatus'' Starting_configure,
                 Playbook ''tok'' (Exited 0 [] []),
                 Post ''http://r/control/initStatus'' Okay]\<rparr>)
   \<and> current_event_id denied_env ex_world = Some (PyStr ''ev-2'')
   \<and> event_id_file ex_world = Text ''ev-1''"
  by code_simp

theorem process_event_cache_update_witness:
  "tool_succeeded (new_events ex_world (snd (the (process_event ex_env ex_world))))
   \<and> current_event_id ex_env ex_world = Some (PyStr ''ev-2'')
   \<and> event_id_file (snd (the (process_event ex_env ex_world))) = Text ''ev-2''
   \<and> current_event_id unreachable_env ex_world = None
   \<and> fst (the (process_event unreachable_env ex_world)) \<noteq> Inr True
   \<and> event_id_file (snd (the (process_event unreachable_env ex_world))) = event_id_file ex_world"
proof -
  have p1: "process_event ex_env ex_world
      = Some (fst (the (process_event ex_env ex_world)), snd (the (process_event ex_env ex_world)))"
    by code_simp
  have c1: "event_id_file (snd (the (process_event ex_env ex_world))) \<noteq> event_id_file ex_world"
    by code_simp
  have t1: "fst (the (process_event ex_env ex_world)) = Inr True"
    by code_simp
  have ce: "current_event_id ex_env ex_world = Some (PyStr ''ev-2'')"
    by code_simp
  have p2: "process_event unreachable_env ex_world
      = Some (fst (the (process_event unreachable_env ex_world)),
              snd (the (process_event unreachable_env ex_world)))"
    by code_simp
  have c2: "current_event_id unreachable_env ex_world = None"
    by code_simp
  from process_event_cache_update [of ex_env ex_world "fst (the (process_event ex_env ex_world))"
      "snd (the (process_event ex_env ex_world))"] p1 c1 t1 ce
  have "tool_succeeded (new_events ex_world (snd (the (process_event ex_env ex_world))))
     \<and> event_id_file (snd (the (process_event ex_env ex_world))) = Text ''ev-2''"
    by auto
  moreover from process_event_cache_update [of unreachable_env ex_world
      "fst (the (process_event unreachable_env ex_world))"
      "snd (the (process_event unreachable_env ex_world))"] p2 c2
  have "fst (the (process_event unreachable_env ex_world)) \<noteq> Inr True
      \<and> event_id_file (snd (the (process_event unreachable_env ex_world))) = event_id_file ex_world"
    by blast
  ultimately show ?thesis using ce c2 by blast
qed

subsection \<open>Orchestrator: the exit status\<close>



lemma process_event_known:
  assumes "get_cached_event_id w = Some c" and "get_cluster_url e w = (Inr (Some url), w1)"
    and "url \<noteq> []" and "query_event_id e url w1 = (Inr (PyStr c), w2)"
  shows "process_event e w = Some (Inr True, report_init_status url EID_known w2)"
  using assms get_cached_event_id_nonempty [OF assms(1)]
  by (simp add: process_event_def present_def)






subsection \<open>Orchestrator: the token file\<close>




subsection \<open>Orchestrator: an unchanged event id\<close>

text \<open>
  C5: when a cached id is present, the cluster URL resolves and the event id query
  returns the cached id, the run posts the status "EID known" and returns success.
  Nothing else happens after the query: no further request (so no token fetch), no run
  of the playbook and no tunnel probe, and both files are as before.
\<close>

theorem unchanged_event_no_action:
  "get_cached_event_id w = Some c \<and> get_cluster_url e w = (Inr (Some url), w1) \<and> url \<noteq> []
     \<and> query_event_id e url w1 = (Inr (PyStr c), w2)
   \<longrightarrow> process_event e w = Some (Inr True, report_init_status url EID_known w2)
     \<and> new_events w2 (report_init_status url EID_known w2)
         = [Post (control_base url @ ''/initStatus'') EID_known]
     \<and> clock (report_init_status url EID_known w2) = clock w2
     \<and> (\<forall>ev\<in>set (new_events w (report_init_status url EID_known w2)).
           \<not> is_playbook ev \<and> \<not> is_skupper ev)
     \<and> event_id_file (report_init_status url EID_known w2) = event_id_file w
     \<and> token_file (report_init_status url EID_known w2) = token_file w"
proof
  assume a: "get_cached_event_id w = Some c \<and> get_cluster_url e w = (Inr (Some url), w1)
     \<and> url \<noteq> [] \<and> query_event_id e url w1 = (Inr (PyStr c), w2)"
  let ?w' = "report_init_status url EID_known w2"
  have p: "process_event e w = Some (Inr True, ?w')"
    using a process_event_known [of w c e url w1 w2] by blast
  have "quiet w w1" using a quiet_get_cluster_url [of w e] by simp
  moreover have "quiet w1 w2" using a quiet_query_event_id [of w1 e url] by simp
  moreover have "quiet w2 ?w'" by (simp add: quiet_report)
  ultimately have "quiet w ?w'" by (blast intro: quiet_trans)
  then obtain es where es: "trace ?w' = trace w @ es" "\<forall>ev\<in>set es. calm ev"
    "event_id_file ?w' = event_id_file w" "token_file ?w' = token_file w"
    by (auto simp: quiet_def)
  have "new_events w ?w' = es" using es(1) by (rule new_events_append)
  then have "\<forall>ev\<in>set (new_events w ?w'). \<not> is_playbook ev \<and> \<not> is_skupper ev"
    using es(2) calm_facts by blast
  moreover have "new_events w2 ?w' = [Post (control_base url @ ''/initStatus'') EID_known]"
    by (simp add: new_events_def report_init_status_def)
  moreover have "clock ?w' = clock w2"
    by (simp add: report_init_status_def)
  ultimately show "process_event e w = Some (Inr True, ?w')
     \<and> new_events w2 ?w' = [Post (control_base url @ ''/initStatus'') EID_known]
     \<and> clock ?w' = clock w2
     \<and> (\<forall>ev\<in>set (new_events w ?w'). \<not> is_playbook ev \<and> \<not> is_skupper ev)
     \<and> event_id_file ?w' = event_id_file w
     \<and> token_file ?w' = token_file w"
    using p es(3,4) by blast
qed

theorem unchanged_event_no_action_witness:
  "process_event ex_env known_world
   = Some (Inr True,
       \<lparr>clock = 1, event_id_file = Text ''ev-2'', token_file = None,
        trace = [Get ''http://r/control/eventId'',
                 Post ''http://r/control/initStatus'' EID_known]\<rparr>)"
proof -
  have h: "get_cached_event_id known_world = Some ''ev-2''
     \<and> get_cluster_url ex_env known_world = (Inr (Some ''http://r''), known_world)
     \<and> ''http://r'' \<noteq> []
     \<and> query_event_id ex_env ''http://r'' known_world
        = (Inr (PyStr ''ev-2''),
           \<lparr>clock = 1, event_id_file = Text ''ev-2'', token_file = None,
            trace = [Get ''http://r/control/eventId'']\<rparr>)"
    by code_simp
  have "report_init_status ''http://r'' EID_known
          \<lparr>clock = 1, event_id_file = Text ''ev-2'', token_file = None,
           trace = [Get ''http://r/control/eventId'']\<rparr>
      = \<lparr>clock = 1, event_id_file = Text ''ev-2'', token_file = None,
        trace = [Get ''http://r/control/eventId'',
                 Post ''http://r/control/initStatus'' EID_known]\<rparr>"
    by code_simp
  with unchanged_event_no_action [of known_world "''ev-2''" ex_env "''http://r''" known_world
      "\<lparr>clock = 1, event_id_file = Text ''ev-2'', token_file = None,
        trace = [Get ''http://r/control/eventId'']\<rparr>"] h
  show ?thesis by simp
qed

subsection \<open>Orchestrator: an empty token\<close>

text \<open>
  C10: when the event id is new (or none is cached) and the first 200 that the token
  endpoint answers has a body that reads as the empty string, \<open>query_skupper_token\<close>
  returns the empty string with that request, its last one, and \<open>process_event\<close> returns
  failure without a run of the playbook and with the cache file unchanged.
\<close>

theorem empty_token_aborts:
  "get_cluster_url e w = (Inr (Some url), w1) \<and> url \<noteq> []
     \<and> query_event_id e url w1 = (Inr cur, w2) \<and> truthy cur
     \<and> (\<forall>c. get_cached_event_id w = Some c \<longrightarrow> PyStr c \<noteq> cur)
     \<and> (\<forall>i<k. \<not> answers_200 (http_get e (clock w2 + i) (control_base url @ ''/getToken'')))
     \<and> http_get e (clock w2 + k) (control_base url @ ''/getToken'') = Response r
     \<and> status_code r = 200
     \<and> body_value ''token'' ''skupper_token'' r = Inr (PyStr [])
   \<longrightarrow> (\<exists>w3. query_skupper_token e url
                (if present (get_cached_event_id w) then w2
                 else report_init_status url EID_unknown w2)
              = Some (Inr (PyStr []), w3)
          \<and> clock w3 = clock w2 + Suc k
          \<and> process_event e w = Some (Inr False, w3)
          \<and> event_id_file w3 = event_id_file w
          \<and> (\<forall>ev\<in>set (new_events w w3). \<not> is_playbook ev))"
proof
  assume a: "get_cluster_url e w = (Inr (Some url), w1) \<and> url \<noteq> []
     \<and> query_event_id e url w1 = (Inr cur, w2) \<and> truthy cur
     \<and> (\<forall>c. get_cached_event_id w = Some c \<longrightarrow> PyStr c \<noteq> cur)
     \<and> (\<forall>i<k. \<not> answers_200 (http_get e (clock w2 + i) (control_base url @ ''/getToken'')))
     \<and> http_get e (clock w2 + k) (control_base url @ ''/getToken'') = Response r
     \<and> status_code r = 200
     \<and> body_value ''token'' ''skupper_token'' r = Inr (PyStr [])"
  let ?ep = "control_base url @ ''/getToken''"
  let ?v = "if present (get_cached_event_id w) then w2 else report_init_status url EID_unknown w2"
  let ?q = "report_init_status url Querying_token ?v"
  have c0: "clock ?q = clock w2" by (simp add: report_init_status_def)
  let ?z = "report_init_status url Token_retrieved
      (?q\<lparr>clock := clock ?q + Suc k,
           trace := trace ?q @ concat (replicate k [Get ?ep, Sleep 5]) @ [Get ?ep]\<rparr>)"
  have "token_loop e url ?ep ?q = Some (Inr (PyStr []), ?z)"
    using token_loop_returns [of k e ?q ?ep r url] a c0 by simp
  then have q: "query_skupper_token e url ?v = Some (Inr (PyStr []), ?z)"
    by (simp add: query_skupper_token_def)
  have c3: "clock ?z = clock w2 + Suc k"
    using c0 by (simp add: report_init_status_def)
  have conf: "configure e url cur st ?v = Some (Inr False, ?z)" for st
    using q by (simp add: configure_def)
  have p: "process_event e w = Some (Inr False, ?z)"
  proof (cases "present (get_cached_event_id w)")
    case False
    with a conf [of Configured] show ?thesis
      by (simp add: process_event_def present_def)
  next
    case True
    then obtain c where c: "get_cached_event_id w = Some c" "c \<noteq> []"
      by (auto simp: present_def split: option.splits)
    with a have "PyStr c \<noteq> cur" by blast
    with a c True conf [of Okay] show ?thesis
      by (simp add: process_event_def present_def)
  qed
  have "quiet w w1" using a quiet_get_cluster_url [of w e] by simp
  moreover have "quiet w1 w2" using a quiet_query_event_id [of w1 e url] by simp
  moreover have "quiet w2 ?v" by (simp add: quiet_report quiet_refl)
  moreover have "quiet ?v ?z" using q by (rule quiet_query_skupper_token)
  ultimately have "quiet w ?z" by (blast intro: quiet_trans)
  then obtain es where es: "trace ?z = trace w @ es" "\<forall>ev\<in>set es. calm ev"
    "event_id_file ?z = event_id_file w"
    by (auto simp: quiet_def)
  have "new_events w ?z = es" using es(1) by (rule new_events_append)
  then have "\<forall>ev\<in>set (new_events w ?z). \<not> is_playbook ev"
    using es(2) calm_facts by blast
  with q c3 p es(3)
  show "\<exists>w3. query_skupper_token e url ?v = Some (Inr (PyStr []), w3)
          \<and> clock w3 = clock w2 + Suc k
          \<and> process_event e w = Some (Inr False, w3)
          \<and> event_id_file w3 = event_id_file w
          \<and> (\<forall>ev\<in>set (new_events w w3). \<not> is_playbook ev)"
    by blast
qed

theorem empty_token_aborts_witness:
  "fst (the (process_event empty_token_env ex_world)) = Inr False
   \<and> event_id_file (snd (the (process_event empty_token_env ex_world))) = Text ''ev-1''
   \<and> \<not> list_ex is_playbook
         (new_events ex_world (snd (the (process_event empty_token_env ex_world))))"
proof -
  have h: "get_cluster_url empty_token_env ex_world = (Inr (Some ''http://r''), ex_world)
     \<and> ''http://r'' \<noteq> []
     \<and> query_event_id empty_token_env ''http://r'' ex_world
        = (Inr (PyStr ''ev-2''),
           \<lparr>clock = 1, event_id_file = Text ''ev-1'', token_file = None,
            trace = [Get ''http://r/control/eventId'']\<rparr>)
     \<and> truthy (PyStr ''ev-2'')
     \<and> http_get empty_token_env (1 + 0) (control_base ''http://r'' @ ''/getToken'')
        = Response (ok_response '' '')
     \<and> status_code (ok_response '' '') = 200
     \<and> body_value ''token'' ''skupper_token'' (ok_response '' '') = Inr (PyStr [])"
    by code_simp
  have g: "get_cached_event_id ex_world = Some ''ev-1''"
    by code_simp
  then have "\<forall>c. get_cached_event_id ex_world = Some c \<longrightarrow> PyStr c \<noteq> PyStr ''ev-2''"
    by simp
  with empty_token_aborts [of empty_token_env ex_world "''http://r''" ex_world "PyStr ''ev-2''"
      "\<lparr>clock = 1, event_id_file = Text ''ev-1'', token_file = None,
        trace = [Get ''http://r/control/eventId'']\<rparr>" 0 "ok_response '' ''"] h
  obtain w3 where "process_event empty_token_env ex_world = Some (Inr False, w3)"
    "event_id_file w3 = event_id_file ex_world"
    "\<forall>ev\<in>set (new_events ex_world w3). \<not> is_playbook ev"
    by auto
  moreover have "event_id_file ex_world = Text ''ev-1''"
    by (simp add: ex_world_def)
  ultimately show ?thesis
    by (simp add: list_ex_iff)
qed

end
